theory Spec2Isabelle
  imports Main
begin

section \<open>The condition watcher (pkg/watcher/conditionwatcher.go)\<close>

subsection \<open>Data model\<close>

text \<open>
  \<^verbatim>\<open>type ObjectType string\<close> with its three declared constants. The type is an open
  string type in the source, so it stays a string here.
\<close>

type_synonym ObjectType = string

definition AzVolumeAttachmentType :: ObjectType where
  "AzVolumeAttachmentType = ''azvolumeattachments''"

definition AzVolumeType :: ObjectType where
  "AzVolumeType = ''azvolume''"

definition AzDriverNodeType :: ObjectType where
  "AzDriverNodeType = ''azdrivernode''"

datatype eventType = create | update | delete

text \<open>
  Error values. \<^verbatim>\<open>status.Errorf(code, msg)\<close> builds a gRPC status error; a predicate may
  return any other error value, kept as \<open>Plain\<close>.
\<close>

datatype code = Aborted | Internal

datatype error = Status code string | Plain string

text \<open>
  The \<^verbatim>\<open>interface{}\<close> values handed to the event handlers, seen through the operations
  \<^verbatim>\<open>handleEvent\<close> applies to them: the type switch, \<^verbatim>\<open>meta.Accessor\<close>, \<^verbatim>\<open>GetName\<close> and
  \<^verbatim>\<open>reflect.TypeOf\<close>.
  \<^item> A pointer to a value of one of the three API types carries object metadata,
    hence a name; its last argument is the remaining content, which only the caller's
    predicate inspects.
  \<^item> A nil pointer of one of the three API types is a value of \<^verbatim>\<open>interface{}\<close> too: it
    has the dynamic type, so the type switch and \<^verbatim>\<open>meta.Accessor\<close> accept it, but
    there is no value behind it.
  \<^item> Any other dynamic type (the nil interface included) is \<open>Other\<close>, with its type
    name and, when it exposes object metadata, its name.
\<close>

datatype 'a object =
    AzVolume string 'a
  | AzVolumeAttachment string 'a
  | AzDriverNode string 'a
  | NilAzVolume
  | NilAzVolumeAttachment
  | NilAzDriverNode
  | Other string "string option" 'a

text \<open>
  \<^verbatim>\<open>meta.Accessor(obj)\<close>: whether it returns an accessor and a nil error. It tests the
  dynamic type only, so a nil pointer of an API type passes.
\<close>

fun Accessor :: "'a object \<Rightarrow> bool" where
  "Accessor (AzVolume _ _) = True"
| "Accessor (AzVolumeAttachment _ _) = True"
| "Accessor (AzDriverNode _ _) = True"
| "Accessor NilAzVolume = True"
| "Accessor NilAzVolumeAttachment = True"
| "Accessor NilAzDriverNode = True"
| "Accessor (Other _ m _) = (m \<noteq> None)"

text \<open>
  \<^verbatim>\<open>metaObj.GetName()\<close> on the accessor of the object. \<open>None\<close>: the call panics, because
  it dereferences a nil pointer (or because \<^verbatim>\<open>metaObj\<close> itself is nil).
\<close>

fun GetName :: "'a object \<Rightarrow> string option" where
  "GetName (AzVolume n _) = Some n"
| "GetName (AzVolumeAttachment n _) = Some n"
| "GetName (AzDriverNode n _) = Some n"
| "GetName NilAzVolume = None"
| "GetName NilAzVolumeAttachment = None"
| "GetName NilAzDriverNode = None"
| "GetName (Other _ m _) = m"

text \<open>The nil pointers of the three API types.\<close>

fun nilPointer :: "'a object \<Rightarrow> bool" where
  "nilPointer NilAzVolume = True"
| "nilPointer NilAzVolumeAttachment = True"
| "nilPointer NilAzDriverNode = True"
| "nilPointer _ = False"

fun TypeOf :: "'a object \<Rightarrow> string" where
  "TypeOf (AzVolume _ _) = ''*v1beta1.AzVolume''"
| "TypeOf (AzVolumeAttachment _ _) = ''*v1beta1.AzVolumeAttachment''"
| "TypeOf (AzDriverNode _ _) = ''*v1beta1.AzDriverNode''"
| "TypeOf NilAzVolume = ''*v1beta1.AzVolume''"
| "TypeOf NilAzVolumeAttachment = ''*v1beta1.AzVolumeAttachment''"
| "TypeOf NilAzDriverNode = ''*v1beta1.AzDriverNode''"
| "TypeOf (Other t _ _) = t"

record 'a waitResult =
  obj :: "'a object option"
  err :: "error option"

text \<open>
  A buffered Go channel of \<^verbatim>\<open>waitResult\<close>: the queued elements, the capacity given to
  \<^verbatim>\<open>make\<close>, and whether \<^verbatim>\<open>close\<close> has been applied to it.
\<close>

record 'a chan =
  buf :: "'a waitResult list"
  cap :: nat
  closed :: bool

text \<open>
  \<^verbatim>\<open>waitEntry\<close>. The channel is a reference: \<open>waitChan\<close> is its address in the store of
  channels kept in the state below, so that the entry in the registry and the handle
  returned to the caller share one channel.
\<close>

record 'a waitEntry =
  conditionFunc :: "'a object \<Rightarrow> bool \<Rightarrow> bool \<times> error option"
  waitChan :: nat

text \<open>The calls to klog, one constructor for each call site.\<close>

datatype logEntry =
    V5_AddingCondition ObjectType string
  | Error_AnotherWait error
  | Error_NoMetaObject
  | Error_UnsupportedType string
  | V5_FoundEntry string
  | V5_ConditionResult bool "error option"
  | Info_ChanOccupiedOrClosed string

text \<open>
  \<^verbatim>\<open>ConditionWatcher\<close> together with the part of the program state its methods touch:
  \<^item> \<open>waitMap\<close> is the \<^verbatim>\<open>sync.Map\<close> from typed name to wait entry;
  \<^item> \<open>chans\<close> is the store of channels and \<open>nextChan\<close> the next fresh address
    (\<^verbatim>\<open>make\<close> allocates there);
  \<^item> \<open>klog\<close> is the log written so far;
  \<^item> \<open>calls\<close> is a history variable: every invocation of a registered predicate,
    as (registry key, object, objectDeleted flag), in order. The source has no such
    field; it is only read by the theorems that say which predicate was invoked.
\<close>

record 'a ConditionWatcher =
  waitMap :: "string \<rightharpoonup> 'a waitEntry"
  namespace :: string
  chans :: "nat \<Rightarrow> 'a chan"
  nextChan :: nat
  klog :: "logEntry list"
  calls :: "(string \<times> 'a object \<times> bool) list"

text \<open>
  \<^verbatim>\<open>ConditionWaiter\<close>, the handle. Its pointer back to the watcher is left out: the
  watcher is the state every operation takes. The watcher's \<open>informerFactory\<close> field
  is kept with the constructor below.
\<close>

record 'a ConditionWaiter =
  objType :: ObjectType
  objName :: string
  entry :: "'a waitEntry"

text \<open>A run-time panic of the Go program.\<close>

datatype panic = SendOnClosedChannel | NilDereference

subsection \<open>Operations\<close>

definition getTypedName :: "ObjectType \<Rightarrow> string \<Rightarrow> string" where
  "getTypedName ty nm = ty @ ''/'' @ nm"

text \<open>
  \<^verbatim>\<open>NewConditionWaiter\<close>. The context argument is unused by the source. The only access
  to shared state is the single \<^verbatim>\<open>LoadOrStore\<close>, which \<^verbatim>\<open>sync.Map\<close> performs atomically,
  so one call is one atomic step on the state. The channel is made before the
  \<^verbatim>\<open>LoadOrStore\<close>, also when the registration is then refused.
\<close>

definition NewConditionWaiter ::
  "ObjectType \<Rightarrow> string \<Rightarrow> ('a object \<Rightarrow> bool \<Rightarrow> bool \<times> error option) \<Rightarrow>
   'a ConditionWatcher \<Rightarrow> (error + 'a ConditionWaiter) \<times> 'a ConditionWatcher" where
  "NewConditionWaiter ty nm f c =
    (let c1 = c\<lparr>klog := klog c @ [V5_AddingCondition ty nm]\<rparr>;
         ch = nextChan c1;
         c2 = c1\<lparr>chans := (chans c1)(ch := \<lparr>buf = [], cap = 1, closed = False\<rparr>),
                 nextChan := Suc ch\<rparr>;
         e = \<lparr>conditionFunc = f, waitChan = ch\<rparr>
     in case waitMap c2 (getTypedName ty nm) of
          Some _ \<Rightarrow>
            (let er = Status Aborted
                        (''another wait operation in process for '' @ ty @ '' ('' @ nm @ '')'')
             in (Inl er, c2\<lparr>klog := klog c2 @ [Error_AnotherWait er]\<rparr>))
        | None \<Rightarrow>
            (Inr \<lparr>objType = ty, objName = nm, entry = e\<rparr>,
             c2\<lparr>waitMap := (waitMap c2)(getTypedName ty nm \<mapsto> e)\<rparr>))"

text \<open>
  The type switch of \<^verbatim>\<open>handleEvent\<close>; \<open>None\<close> is its default arm. A case
  \<^verbatim>\<open>*diskv1beta1.AzVolume\<close> matches on the dynamic type, nil pointer or not.
\<close>

fun typeSwitch :: "'a object \<Rightarrow> ObjectType option" where
  "typeSwitch (AzVolume _ _) = Some AzVolumeType"
| "typeSwitch (AzVolumeAttachment _ _) = Some AzVolumeAttachmentType"
| "typeSwitch (AzDriverNode _ _) = Some AzDriverNodeType"
| "typeSwitch NilAzVolume = Some AzVolumeType"
| "typeSwitch NilAzVolumeAttachment = Some AzVolumeAttachmentType"
| "typeSwitch NilAzDriverNode = Some AzDriverNodeType"
| "typeSwitch (Other _ _ _) = None"

text \<open>
  \<^verbatim>\<open>handleEvent\<close>. It returns the state it leaves and whether it panicked.

  \<open>rt\<close> is the type assertion \<^verbatim>\<open>obj.(runtime.Object)\<close>: whether the object's dynamic
  type implements \<^verbatim>\<open>runtime.Object\<close> is fixed by the declarations of the API types,
  which are outside the source files at hand, so it is a parameter.

  The \<^verbatim>\<open>select\<close> with a send case and a default arm follows Go's semantics: a send on a
  closed channel panics (also inside \<^verbatim>\<open>select\<close>); a send to an open channel with room in
  its buffer proceeds; otherwise the default arm runs.

  When \<^verbatim>\<open>meta.Accessor\<close> fails the source logs and goes on. After the type switch the
  argument \<^verbatim>\<open>metaObj.GetName()\<close> of the lookup is evaluated first; for a nil pointer of
  one of the three API types that call panics, before the registry is read.
\<close>

definition handleEvent ::
  "('a object \<Rightarrow> bool) \<Rightarrow> 'a object \<Rightarrow> eventType \<Rightarrow> 'a ConditionWatcher \<Rightarrow>
   panic option \<times> 'a ConditionWatcher" where
  "handleEvent rt ob evType c =
    (let c1 = (if Accessor ob then c
               else c\<lparr>klog := klog c @ [Error_NoMetaObject]\<rparr>)
     in case typeSwitch ob of
          None \<Rightarrow> (None, c1\<lparr>klog := klog c1 @ [Error_UnsupportedType (TypeOf ob)]\<rparr>)
        | Some ty \<Rightarrow>
           (case GetName ob of
              None \<Rightarrow> (Some NilDereference, c1)
            | Some nm \<Rightarrow>
               (case waitMap c1 (getTypedName ty nm) of
                  None \<Rightarrow> (None, c1)
                | Some e \<Rightarrow>
                    (let k = getTypedName ty nm;
                         c2 = c1\<lparr>klog := klog c1 @ [V5_FoundEntry nm]\<rparr>;
                         (ok, er) = conditionFunc e ob (evType = delete);
                         c3 = c2\<lparr>calls := calls c2 @ [(k, ob, evType = delete)],
                                 klog := klog c2 @ [V5_ConditionResult ok er]\<rparr>
                     in if er = None \<and> \<not> ok then (None, c3)
                        else
                          (let result = (if rt ob
                                 then \<lparr>obj = Some ob, err = er\<rparr>
                                 else \<lparr>obj = None, err = Some (Status Internal
                                        ''object does not implement runtime.Object interface.'')\<rparr>);
                               ch = chans c3 (waitChan e)
                           in if closed ch then (Some SendOnClosedChannel, c3)
                              else if length (buf ch) < cap ch
                              then (None, c3\<lparr>chans := (chans c3)
                                      (waitChan e := ch\<lparr>buf := buf ch @ [result]\<rparr>)\<rparr>)
                              else (None, c3\<lparr>klog := klog c3 @
                                      [Info_ChanOccupiedOrClosed nm]\<rparr>))))))"

definition onCreate ::
  "('a object \<Rightarrow> bool) \<Rightarrow> 'a object \<Rightarrow> 'a ConditionWatcher \<Rightarrow>
   panic option \<times> 'a ConditionWatcher" where
  "onCreate rt ob c = handleEvent rt ob create c"

definition onUpdate ::
  "('a object \<Rightarrow> bool) \<Rightarrow> 'a object \<Rightarrow> 'a object \<Rightarrow> 'a ConditionWatcher \<Rightarrow>
   panic option \<times> 'a ConditionWatcher" where
  "onUpdate rt old newObj c = handleEvent rt newObj update c"

definition onDelete ::
  "('a object \<Rightarrow> bool) \<Rightarrow> 'a object \<Rightarrow> 'a ConditionWatcher \<Rightarrow>
   panic option \<times> 'a ConditionWatcher" where
  "onDelete rt ob c = handleEvent rt ob delete c"

text \<open>
  The informers call the registered handlers one notification after the other
  (\<^verbatim>\<open>cache.ResourceEventHandlerFuncs\<close>: \<^verbatim>\<open>AddFunc\<close>, \<^verbatim>\<open>UpdateFunc\<close>, \<^verbatim>\<open>DeleteFunc\<close>). A run
  of the event router over a list of notifications stops at the first panic, as the
  process does.
\<close>

datatype 'a notification =
    Add "'a object"
  | Update "'a object" "'a object"
  | Delete "'a object"

fun dispatch ::
  "('a object \<Rightarrow> bool) \<Rightarrow> 'a notification \<Rightarrow> 'a ConditionWatcher \<Rightarrow>
   panic option \<times> 'a ConditionWatcher" where
  "dispatch rt (Add ob) c = onCreate rt ob c"
| "dispatch rt (Update old newObj) c = onUpdate rt old newObj c"
| "dispatch rt (Delete ob) c = onDelete rt ob c"

fun handleEvents ::
  "('a object \<Rightarrow> bool) \<Rightarrow> 'a notification list \<Rightarrow> 'a ConditionWatcher \<Rightarrow>
   panic option \<times> 'a ConditionWatcher" where
  "handleEvents rt [] c = (None, c)"
| "handleEvents rt (n # ns) c =
     (case dispatch rt n c of
        (Some p, c') \<Rightarrow> (Some p, c')
      | (None, c') \<Rightarrow> handleEvents rt ns c')"

text \<open>
  Go's receive from a channel, for whoever holds the handle returned by
  \<^verbatim>\<open>NewConditionWaiter\<close> (the handle shares the channel with the registry's entry): by it
  a waiter takes the result out of its slot. \<open>None\<close>: the buffer is empty and there is
  nothing to take. No function of the source file closes a channel.
\<close>

definition recv ::
  "nat \<Rightarrow> 'a ConditionWatcher \<Rightarrow> 'a waitResult option \<times> 'a ConditionWatcher" where
  "recv i c =
     (case buf (chans c i) of
        [] \<Rightarrow> (None, c)
      | r # rs \<Rightarrow> (Some r, c\<lparr>chans := (chans c)(i := (chans c i)\<lparr>buf := rs\<rparr>)\<rparr>))"

text \<open>
  The object a notification is about, and the registry key the router derives from it
  (none for an object the type switch rejects, and none for a nil pointer).
\<close>

fun subject :: "'a notification \<Rightarrow> 'a object" where
  "subject (Add ob) = ob"
| "subject (Update old newObj) = newObj"
| "subject (Delete ob) = ob"

definition eventKey :: "'a object \<Rightarrow> string option" where
  "eventKey ob =
     (case typeSwitch ob of
        None \<Rightarrow> None
      | Some ty \<Rightarrow> (case GetName ob of None \<Rightarrow> None | Some nm \<Rightarrow> Some (getTypedName ty nm)))"

subsection \<open>Well-formed states\<close>

text \<open>
  What \<^verbatim>\<open>NewConditionWaiter\<close> establishes for every entry it stores: the entry's channel
  has been allocated, was made with capacity one and holds no more than that, and no
  two keys share a channel.
\<close>

definition wellFormed :: "'a ConditionWatcher \<Rightarrow> bool" where
  "wellFormed c \<longleftrightarrow>
     (\<forall>k e. waitMap c k = Some e \<longrightarrow>
        waitChan e < nextChan c \<and> cap (chans c (waitChan e)) = 1 \<and>
        length (buf (chans c (waitChan e))) \<le> 1) \<and>
     (\<forall>k k' e e'. waitMap c k = Some e \<longrightarrow> waitMap c k' = Some e' \<longrightarrow>
        waitChan e = waitChan e' \<longrightarrow> k = k')"

subsection \<open>Construction\<close>

text \<open>
  The watch source is outside the repository; \<^verbatim>\<open>New\<close> uses three of its operations.
  An informer is the list of handlers registered with it and its readiness probe
  \<^verbatim>\<open>HasSynced\<close>, whose answer depends on when it is asked: the argument is the number of
  the poll round. \<^verbatim>\<open>ctx.Done()\<close> is likewise the rounds at which the context is done.
  The handlers registered are the method values \<^verbatim>\<open>c.onCreate\<close>, \<^verbatim>\<open>c.onUpdate\<close>, \<^verbatim>\<open>c.onDelete\<close>.
\<close>

datatype callback = OnCreate | OnUpdate | OnDelete

record ResourceEventHandlerFuncs =
  AddFunc :: callback
  UpdateFunc :: callback
  DeleteFunc :: callback

record informer =
  eventHandlers :: "ResourceEventHandlerFuncs list"
  HasSynced :: "nat \<Rightarrow> bool"

record SharedInformerFactory =
  AzVolumeAttachments :: informer
  AzVolumes :: informer
  AzDriverNodes :: informer
  started :: bool

definition AddEventHandler :: "ResourceEventHandlerFuncs \<Rightarrow> informer \<Rightarrow> informer" where
  "AddEventHandler h i = i\<lparr>eventHandlers := eventHandlers i @ [h]\<rparr>"

text \<open>
  \<^verbatim>\<open>cache.WaitForCacheSync\<close> (client-go) polls: it returns true as soon as every probe
  answers true, false once the stop channel is closed, and goes on polling otherwise,
  possibly for ever. The result comes with the round at which it returned.
\<close>

partial_function (option) WaitForCacheSync ::
  "(nat \<Rightarrow> bool) \<Rightarrow> (nat \<Rightarrow> bool) list \<Rightarrow> nat \<Rightarrow> (bool \<times> nat) option" where
  "WaitForCacheSync stopCh cacheSyncs t =
     (if list_all (\<lambda>syncFunc. syncFunc t) cacheSyncs then Some (True, t)
      else if stopCh t then Some (False, t)
      else WaitForCacheSync stopCh cacheSyncs (Suc t))"

text \<open>\<^verbatim>\<open>klog.Fatalf\<close> logs the message and terminates the process.\<close>

datatype exit = Fatal string

text \<open>
  \<^verbatim>\<open>New\<close>. \<open>None\<close>: the call never returns. \<open>Some (Inl x)\<close>: the process exits.
  \<open>Some (Inr (c, f, t))\<close>: the watcher \<open>c\<close> is returned at round \<open>t\<close>, leaving the
  informer factory as \<open>f\<close>. The client argument is unused by the source.
\<close>

definition New ::
  "(nat \<Rightarrow> bool) \<Rightarrow> SharedInformerFactory \<Rightarrow> string \<Rightarrow>
   (exit + 'a ConditionWatcher \<times> SharedInformerFactory \<times> nat) option" where
  "New ctxDone informerFactory ns =
    (let c = \<lparr>waitMap = Map.empty, namespace = ns,
              chans = (\<lambda>_. \<lparr>buf = [], cap = 0, closed = False\<rparr>), nextChan = 0,
              klog = [], calls = []\<rparr>;
         h = \<lparr>AddFunc = OnCreate, UpdateFunc = OnUpdate, DeleteFunc = OnDelete\<rparr>;
         f1 = informerFactory\<lparr>AzVolumeAttachments :=
                AddEventHandler h (AzVolumeAttachments informerFactory)\<rparr>;
         f2 = f1\<lparr>AzVolumes := AddEventHandler h (AzVolumes f1)\<rparr>;
         f3 = f2\<lparr>AzDriverNodes := AddEventHandler h (AzDriverNodes f2)\<rparr>;
         f4 = f3\<lparr>started := True\<rparr>
     in case WaitForCacheSync ctxDone
               [HasSynced (AzVolumeAttachments f4), HasSynced (AzVolumes f4),
                HasSynced (AzDriverNodes f4)] 0 of
          None \<Rightarrow> None
        | Some (synced, t) \<Rightarrow>
            if \<not> synced then Some (Inl (Fatal ''Unable to sync caches for azuredisk CRIs''))
            else Some (Inr (c, f4, t)))"

subsection \<open>Reachable states\<close>

text \<open>
  The states the program can be in: the one \<^verbatim>\<open>New\<close> returns, and from there any
  registration, any notification handled by the router, and any receive by a waiter.
\<close>

inductive reachable :: "'a ConditionWatcher \<Rightarrow> bool" where
  created: "New ctxDone informerFactory ns = Some (Inr (c, f, t)) \<Longrightarrow> reachable c"
| registered: "reachable c \<Longrightarrow> reachable (snd (NewConditionWaiter ty nm p c))"
| handled: "reachable c \<Longrightarrow> reachable (snd (handleEvent rt ob ev c))"
| received: "reachable c \<Longrightarrow> reachable (snd (recv i c))"

section \<open>The performance-tuning stub (pkg/azuredisk/device_perf_optimization_unsupported.go)\<close>

text \<open>
  \<^verbatim>\<open>DeviceHelper\<close> is an empty struct; both methods take it by pointer and never read it.
  \<^verbatim>\<open>NodeInfo\<close> and \<^verbatim>\<open>DiskSkuInfo\<close> are declared elsewhere and are type parameters here;
  the node information is a pointer, hence an option.
\<close>

datatype DeviceHelper = DeviceHelper

definition DiskSupportsPerfOptimization ::
  "DeviceHelper option \<Rightarrow> string \<Rightarrow> string \<Rightarrow> bool" where
  "DiskSupportsPerfOptimization deviceHelper diskPerfProfile diskAccountType = False"

definition OptimizeDiskPerformance ::
  "DeviceHelper option \<Rightarrow> 'n option \<Rightarrow> (string \<rightharpoonup> (string \<rightharpoonup> 'd)) \<Rightarrow> string \<Rightarrow>
   string \<Rightarrow> string \<Rightarrow> string \<Rightarrow> string \<Rightarrow> string \<Rightarrow> error option" where
  "OptimizeDiskPerformance deviceHelper nodeInfo diskSkus devicePath
     perfProfile accountType diskSizeGibStr diskIopsStr diskBwMbpsStr = None"

section \<open>Example inputs\<close>

text \<open>
  Concrete objects, predicates and states at which the theorems below are instantiated.
  The content of an object is a status string here.
\<close>

fun content :: "'a object \<Rightarrow> 'a option" where
  "content (AzVolume _ x) = Some x"
| "content (AzVolumeAttachment _ x) = Some x"
| "content (AzDriverNode _ x) = Some x"
| "content (Other _ _ x) = Some x"
| "content _ = None"

definition isReady :: "string object \<Rightarrow> bool \<Rightarrow> bool \<times> error option" where
  "isReady ob objectDeleted = (content ob = Some ''Ready'', None)"

definition untilRemoved :: "string object \<Rightarrow> bool \<Rightarrow> bool \<times> error option" where
  "untilRemoved ob objectDeleted = (objectDeleted, None)"

definition failing :: "string object \<Rightarrow> bool \<Rightarrow> bool \<times> error option" where
  "failing ob objectDeleted = (False, Some (Plain ''lookup failed''))"

definition emptyWatcher :: "string ConditionWatcher" where
  "emptyWatcher =
     \<lparr>waitMap = Map.empty, namespace = ''azure-disk-csi'',
      chans = (\<lambda>_. \<lparr>buf = [], cap = 0, closed = False\<rparr>), nextChan = 0,
      klog = [], calls = []\<rparr>"

text \<open>One waiter registered for the volume \<open>v1\<close>, then also one for the node \<open>n1\<close>.\<close>

definition oneWaiter :: "string ConditionWatcher" where
  "oneWaiter = snd (NewConditionWaiter AzVolumeType ''v1'' isReady emptyWatcher)"

definition twoWaiters :: "string ConditionWatcher" where
  "twoWaiters = snd (NewConditionWaiter AzDriverNodeType ''n1'' untilRemoved oneWaiter)"

text \<open>The state after the waiter for \<open>v1\<close> has been sent its result.\<close>

definition deliveredOnce :: "string ConditionWatcher" where
  "deliveredOnce = snd (handleEvent (\<lambda>_. True) (AzVolume ''v1'' ''Ready'') update oneWaiter)"

text \<open>One waiter whose predicate fails, registered for the attachment \<open>a1\<close>.\<close>

definition failingWaiter :: "string ConditionWatcher" where
  "failingWaiter = snd (NewConditionWaiter AzVolumeAttachmentType ''a1'' failing emptyWatcher)"

text \<open>
  A watch source whose three caches are filled at rounds two, one and three, and one
  whose node cache is never filled.
\<close>

definition exampleFactory :: SharedInformerFactory where
  "exampleFactory =
     \<lparr>AzVolumeAttachments = \<lparr>eventHandlers = [], HasSynced = (\<lambda>t. 2 \<le> t)\<rparr>,
      AzVolumes = \<lparr>eventHandlers = [], HasSynced = (\<lambda>t. 1 \<le> t)\<rparr>,
      AzDriverNodes = \<lparr>eventHandlers = [], HasSynced = (\<lambda>t. 3 \<le> t)\<rparr>,
      started = False\<rparr>"

definition stalledFactory :: SharedInformerFactory where
  "stalledFactory = exampleFactory\<lparr>AzDriverNodes := \<lparr>eventHandlers = [], HasSynced = (\<lambda>t. False)\<rparr>\<rparr>"

section \<open>Properties of the event router\<close>

subsection \<open>The three paths through \<^verbatim>\<open>handleEvent\<close>\<close>

lemma eventKey_SomeD:
  "eventKey ob = Some k \<Longrightarrow>
   \<exists>ty nm. typeSwitch ob = Some ty \<and> GetName ob = Some nm \<and> Accessor ob \<and> k = getTypedName ty nm"
  by (cases ob) (auto simp: eventKey_def)

lemma eventKey_NoneD:
  "eventKey ob = None \<Longrightarrow>
   typeSwitch ob = None \<or> (\<exists>ty. typeSwitch ob = Some ty \<and> GetName ob = None \<and> Accessor ob)"
  by (cases ob) (auto simp: eventKey_def)

lemma handleEvent_unsupported:
  "typeSwitch ob = None \<Longrightarrow>
   handleEvent rt ob ev c =
     (None, c\<lparr>klog := klog c @ (if Accessor ob then [] else [Error_NoMetaObject])
                 @ [Error_UnsupportedType (TypeOf ob)]\<rparr>)"
  by (simp add: handleEvent_def)

lemma handleEvent_nil:
  "typeSwitch ob = Some ty \<Longrightarrow> GetName ob = None \<Longrightarrow>
   handleEvent rt ob ev c = (Some NilDereference, c)"
  by (cases ob) (simp_all add: handleEvent_def)

lemma handleEvent_unkeyed:
  assumes "eventKey ob = None"
  shows "\<exists>l. snd (handleEvent rt ob ev c) = c\<lparr>klog := klog c @ l\<rparr>"
proof -
  from eventKey_NoneD [OF assms] show ?thesis
  proof
    assume "typeSwitch ob = None"
    then have "snd (handleEvent rt ob ev c) =
        c\<lparr>klog := klog c @ ((if Accessor ob then [] else [Error_NoMetaObject])
                 @ [Error_UnsupportedType (TypeOf ob)])\<rparr>"
      by (simp add: handleEvent_unsupported)
    then show ?thesis by blast
  next
    assume "\<exists>ty. typeSwitch ob = Some ty \<and> GetName ob = None \<and> Accessor ob"
    then obtain ty where "typeSwitch ob = Some ty" "GetName ob = None" by blast
    then have "snd (handleEvent rt ob ev c) = c\<lparr>klog := klog c @ []\<rparr>"
      by (simp add: handleEvent_nil)
    then show ?thesis by blast
  qed
qed

lemma handleEvent_no_entry:
  "eventKey ob = Some k \<Longrightarrow> waitMap c k = None \<Longrightarrow> handleEvent rt ob ev c = (None, c)"
  by (auto simp: handleEvent_def dest!: eventKey_SomeD)

lemma handleEvent_matched:
  assumes "eventKey ob = Some k" and "waitMap c k = Some e" and "GetName ob = Some nm"
  shows "handleEvent rt ob ev c =
    (let (ok, er) = conditionFunc e ob (ev = delete);
         c3 = c\<lparr>calls := calls c @ [(k, ob, ev = delete)],
                klog := klog c @ [V5_FoundEntry nm, V5_ConditionResult ok er]\<rparr>
     in if er = None \<and> \<not> ok then (None, c3)
        else
          (let result = (if rt ob then \<lparr>obj = Some ob, err = er\<rparr>
                 else \<lparr>obj = None, err = Some (Status Internal
                        ''object does not implement runtime.Object interface.'')\<rparr>);
               ch = chans c (waitChan e)
           in if closed ch then (Some SendOnClosedChannel, c3)
              else if length (buf ch) < cap ch
              then (None, c3\<lparr>chans := (chans c)(waitChan e := ch\<lparr>buf := buf ch @ [result]\<rparr>)\<rparr>)
              else (None, c3\<lparr>klog := klog c3 @ [Info_ChanOccupiedOrClosed nm]\<rparr>)))"
  using assms
  by (auto simp: handleEvent_def Let_def split: prod.splits dest!: eventKey_SomeD)

lemma handleEvent_waitMap: "waitMap (snd (handleEvent rt ob ev c)) = waitMap c"
  by (auto simp: handleEvent_def Let_def split: option.splits prod.splits)

lemma handleEvent_nextChan: "nextChan (snd (handleEvent rt ob ev c)) = nextChan c"
  by (auto simp: handleEvent_def Let_def split: option.splits prod.splits)

lemma handleEvent_namespace: "namespace (snd (handleEvent rt ob ev c)) = namespace c"
  by (auto simp: handleEvent_def Let_def split: option.splits prod.splits)

subsection \<open>Registration\<close>

lemma NewConditionWaiter_free:
  assumes "waitMap c (getTypedName ty nm) = None"
  shows "NewConditionWaiter ty nm f c =
     (Inr \<lparr>objType = ty, objName = nm, entry = \<lparr>conditionFunc = f, waitChan = nextChan c\<rparr>\<rparr>,
      c\<lparr>klog := klog c @ [V5_AddingCondition ty nm],
        chans := (chans c)(nextChan c := \<lparr>buf = [], cap = 1, closed = False\<rparr>),
        nextChan := Suc (nextChan c),
        waitMap := (waitMap c)(getTypedName ty nm \<mapsto> \<lparr>conditionFunc = f, waitChan = nextChan c\<rparr>)\<rparr>)"
  using assms by (simp add: NewConditionWaiter_def Let_def)

lemma NewConditionWaiter_taken:
  assumes "waitMap c (getTypedName ty nm) = Some e"
  shows "NewConditionWaiter ty nm f c =
     (Inl (Status Aborted (''another wait operation in process for '' @ ty @ '' ('' @ nm @ '')'')),
      c\<lparr>klog := klog c @ [V5_AddingCondition ty nm,
            Error_AnotherWait (Status Aborted
              (''another wait operation in process for '' @ ty @ '' ('' @ nm @ '')''))],
        chans := (chans c)(nextChan c := \<lparr>buf = [], cap = 1, closed = False\<rparr>),
        nextChan := Suc (nextChan c)\<rparr>)"
  using assms by (simp add: NewConditionWaiter_def Let_def)

subsection \<open>Frame and invariant lemmas\<close>

lemma dispatch_waitMap: "waitMap (snd (dispatch rt n c)) = waitMap c"
  by (cases n) (simp_all add: onCreate_def onUpdate_def onDelete_def handleEvent_waitMap)

lemma handleEvents_waitMap: "waitMap (snd (handleEvents rt ns c)) = waitMap c"
proof (induction ns arbitrary: c)
  case Nil
  show ?case by simp
next
  case (Cons n ns)
  obtain p c' where d: "dispatch rt n c = (p, c')" by (cases "dispatch rt n c")
  have w: "waitMap c' = waitMap c" using dispatch_waitMap [of rt n c] d by simp
  show ?case
  proof (cases p)
    case None
    then show ?thesis using d w Cons.IH [of c'] by simp
  next
    case (Some q)
    then show ?thesis using d w by simp
  qed
qed

lemma handleEvent_chan_step:
  "cap (chans (snd (handleEvent rt ob ev c)) i) = cap (chans c i) \<and>
   closed (chans (snd (handleEvent rt ob ev c)) i) = closed (chans c i) \<and>
   (buf (chans (snd (handleEvent rt ob ev c)) i) = buf (chans c i) \<or>
    (\<exists>r e. buf (chans (snd (handleEvent rt ob ev c)) i) = buf (chans c i) @ [r] \<and>
       length (buf (chans c i)) < cap (chans c i) \<and> \<not> closed (chans c i) \<and>
       (\<exists>k. eventKey ob = Some k \<and> waitMap c k = Some e) \<and> waitChan e = i))"
proof (cases "eventKey ob")
  case None
  then obtain l where "snd (handleEvent rt ob ev c) = c\<lparr>klog := klog c @ l\<rparr>"
    using handleEvent_unkeyed by blast
  then show ?thesis by simp
next
  case (Some k)
  show ?thesis
  proof (cases "waitMap c k")
    case None
    then show ?thesis using Some by (simp add: handleEvent_no_entry)
  next
    case (Some e)
    from \<open>eventKey ob = Some k\<close> obtain nm where nm: "GetName ob = Some nm"
      by (auto dest: eventKey_SomeD)
    show ?thesis
      using \<open>eventKey ob = Some k\<close> Some
      by (simp add: handleEvent_matched [OF \<open>eventKey ob = Some k\<close> Some nm] Let_def
            split: prod.splits)
  qed
qed

lemma handleEvent_chan_other:
  assumes "\<And>k e. eventKey ob = Some k \<Longrightarrow> waitMap c k = Some e \<Longrightarrow> waitChan e \<noteq> i"
  shows "chans (snd (handleEvent rt ob ev c)) i = chans c i"
proof -
  let ?c' = "snd (handleEvent rt ob ev c)"
  have "cap (chans ?c' i) = cap (chans c i)" "closed (chans ?c' i) = closed (chans c i)"
       "buf (chans ?c' i) = buf (chans c i)"
    using handleEvent_chan_step [of rt ob ev c i] assms by auto
  then show ?thesis by simp
qed

lemma wellFormed_handleEvent:
  assumes "wellFormed c"
  shows "wellFormed (snd (handleEvent rt ob ev c))"
proof -
  let ?c' = "snd (handleEvent rt ob ev c)"
  have step: "\<And>i. cap (chans ?c' i) = cap (chans c i) \<and>
      (buf (chans ?c' i) = buf (chans c i) \<or>
       (\<exists>r. buf (chans ?c' i) = buf (chans c i) @ [r] \<and> length (buf (chans c i)) < cap (chans c i)))"
    using handleEvent_chan_step [of rt ob ev c] by blast
  have len: "length (buf (chans ?c' (waitChan e))) \<le> 1"
    if "waitMap c k = Some e" for k e
  proof -
    have "cap (chans c (waitChan e)) = 1" "length (buf (chans c (waitChan e))) \<le> 1"
      using assms that by (auto simp: wellFormed_def)
    then show ?thesis using step [of "waitChan e"] by auto
  qed
  show ?thesis
    unfolding wellFormed_def handleEvent_waitMap handleEvent_nextChan
    using assms step len by (auto simp: wellFormed_def)
qed

lemma wellFormed_NewConditionWaiter:
  assumes "wellFormed c"
  shows "wellFormed (snd (NewConditionWaiter ty nm f c))"
proof (cases "waitMap c (getTypedName ty nm)")
  case None
  have fresh: "\<And>k e. waitMap c k = Some e \<Longrightarrow> waitChan e < nextChan c"
    using assms by (auto simp: wellFormed_def)
  show ?thesis
    unfolding NewConditionWaiter_free [OF None] wellFormed_def
    using assms fresh by (auto simp: wellFormed_def less_Suc_eq dest: fresh)
next
  case (Some e)
  have fresh: "\<And>k e. waitMap c k = Some e \<Longrightarrow> waitChan e < nextChan c"
    using assms by (auto simp: wellFormed_def)
  show ?thesis
    unfolding NewConditionWaiter_taken [OF Some] wellFormed_def
    using assms fresh by (auto simp: wellFormed_def less_Suc_eq dest: fresh)
qed

lemma wellFormed_New:
  assumes "New ctxDone informerFactory ns = Some (Inr (c, f, t))"
  shows "wellFormed c"
  using assms by (auto simp: New_def Let_def wellFormed_def split: option.splits prod.splits if_splits)

lemma wellFormed_recv:
  assumes "wellFormed c"
  shows "wellFormed (snd (recv i c))"
proof (cases "buf (chans c i)")
  case Nil
  then show ?thesis using assms by (simp add: recv_def)
next
  case (Cons r rs)
  have "length rs \<le> 1" if "waitMap c k = Some e" "waitChan e = i" for k e
  proof -
    have "length (buf (chans c (waitChan e))) \<le> 1"
      using assms that(1) by (auto simp: wellFormed_def)
    then show ?thesis using Cons that(2) by simp
  qed
  then show ?thesis
    using assms Cons by (auto simp: wellFormed_def recv_def)
qed

subsection \<open>The example states\<close>

lemma wellFormed_emptyWatcher: "wellFormed emptyWatcher"
  by (simp add: wellFormed_def emptyWatcher_def)

lemma wellFormed_oneWaiter: "wellFormed oneWaiter"
  unfolding oneWaiter_def by (rule wellFormed_NewConditionWaiter [OF wellFormed_emptyWatcher])

lemma wellFormed_twoWaiters: "wellFormed twoWaiters"
  unfolding twoWaiters_def by (rule wellFormed_NewConditionWaiter [OF wellFormed_oneWaiter])

lemma oneWaiter_eq:
  "oneWaiter = \<lparr>waitMap = [''azvolume/v1'' \<mapsto> \<lparr>conditionFunc = isReady, waitChan = 0\<rparr>],
      namespace = ''azure-disk-csi'',
      chans = (\<lambda>_. \<lparr>buf = [], cap = 0, closed = False\<rparr>)(0 := \<lparr>buf = [], cap = 1, closed = False\<rparr>),
      nextChan = 1,
      klog = [V5_AddingCondition ''azvolume'' ''v1''], calls = []\<rparr>"
  by (simp add: oneWaiter_def NewConditionWaiter_def emptyWatcher_def Let_def
        getTypedName_def AzVolumeType_def)

subsection \<open>More on the example states\<close>

lemma twoWaiters_eq:
  "twoWaiters = \<lparr>waitMap = [''azvolume/v1'' \<mapsto> \<lparr>conditionFunc = isReady, waitChan = 0\<rparr>,
                   ''azdrivernode/n1'' \<mapsto> \<lparr>conditionFunc = untilRemoved, waitChan = 1\<rparr>],
      namespace = ''azure-disk-csi'',
      chans = (\<lambda>_. \<lparr>buf = [], cap = 0, closed = False\<rparr>)
                (0 := \<lparr>buf = [], cap = 1, closed = False\<rparr>,
                 1 := \<lparr>buf = [], cap = 1, closed = False\<rparr>),
      nextChan = 2,
      klog = [V5_AddingCondition ''azvolume'' ''v1'', V5_AddingCondition ''azdrivernode'' ''n1''],
      calls = []\<rparr>"
  by (simp add: twoWaiters_def oneWaiter_eq NewConditionWaiter_def Let_def
        getTypedName_def AzDriverNodeType_def)

lemma failingWaiter_eq:
  "failingWaiter = \<lparr>waitMap = [''azvolumeattachments/a1'' \<mapsto> \<lparr>conditionFunc = failing, waitChan = 0\<rparr>],
      namespace = ''azure-disk-csi'',
      chans = (\<lambda>_. \<lparr>buf = [], cap = 0, closed = False\<rparr>)(0 := \<lparr>buf = [], cap = 1, closed = False\<rparr>),
      nextChan = 1,
      klog = [V5_AddingCondition ''azvolumeattachments'' ''a1''], calls = []\<rparr>"
  by (simp add: failingWaiter_def NewConditionWaiter_def emptyWatcher_def Let_def
        getTypedName_def AzVolumeAttachmentType_def)

lemma eventKey_examples:
  "eventKey (AzVolume n x) = Some (''azvolume/'' @ n)"
  "eventKey (AzVolumeAttachment n x) = Some (''azvolumeattachments/'' @ n)"
  "eventKey (AzDriverNode n x) = Some (''azdrivernode/'' @ n)"
  by (simp_all add: eventKey_def getTypedName_def AzVolumeType_def
        AzVolumeAttachmentType_def AzDriverNodeType_def)

lemma deliveredOnce_eq:
  "deliveredOnce = \<lparr>waitMap = [''azvolume/v1'' \<mapsto> \<lparr>conditionFunc = isReady, waitChan = 0\<rparr>],
      namespace = ''azure-disk-csi'',
      chans = (\<lambda>_. \<lparr>buf = [], cap = 0, closed = False\<rparr>)
        (0 := \<lparr>buf = [\<lparr>obj = Some (AzVolume ''v1'' ''Ready''), err = None\<rparr>], cap = 1,
               closed = False\<rparr>),
      nextChan = 1,
      klog = [V5_AddingCondition ''azvolume'' ''v1'', V5_FoundEntry ''v1'',
              V5_ConditionResult True None],
      calls = [(''azvolume/v1'', AzVolume ''v1'' ''Ready'', False)]\<rparr>"
proof -
  have k: "eventKey (AzVolume ''v1'' ''Ready'' :: string object) = Some ''azvolume/v1''"
    by (simp add: eventKey_examples)
  have m: "waitMap oneWaiter ''azvolume/v1'' = Some \<lparr>conditionFunc = isReady, waitChan = 0\<rparr>"
    by (simp add: oneWaiter_eq)
  have n: "GetName (AzVolume ''v1'' ''Ready'' :: string object) = Some ''v1''" by simp
  show ?thesis
    unfolding deliveredOnce_def handleEvent_matched [OF k m n]
    by (simp add: isReady_def oneWaiter_eq)
qed

lemma wellFormed_deliveredOnce: "wellFormed deliveredOnce"
  unfolding deliveredOnce_def by (rule wellFormed_handleEvent [OF wellFormed_oneWaiter])

subsection \<open>Runs of the router\<close>

lemma split_at_first:
  assumes "x \<notin> set a" and "x \<notin> set a'" and "a @ x # b = a' @ x # b'"
  shows "a = a' \<and> b = b'"
  using assms
proof (induction a arbitrary: a')
  case Nil
  then show ?case by (cases a') auto
next
  case (Cons y ys)
  then show ?case by (cases a') auto
qed

lemma getTypedName_inj:
  assumes "CHR ''/'' \<notin> set ty" and "CHR ''/'' \<notin> set ty'"
    and "getTypedName ty nm = getTypedName ty' nm'"
  shows "ty = ty' \<and> nm = nm'"
  using split_at_first [OF assms(1,2), of nm nm'] assms(3) by (simp add: getTypedName_def)

lemma declared_types_no_slash:
  "CHR ''/'' \<notin> set AzVolumeAttachmentType" "CHR ''/'' \<notin> set AzVolumeType"
  "CHR ''/'' \<notin> set AzDriverNodeType"
  by (simp_all add: AzVolumeAttachmentType_def AzVolumeType_def AzDriverNodeType_def)

lemma handleEvent_calls:
  "calls (snd (handleEvent rt ob ev c)) = calls c \<and> (\<forall>k. eventKey ob = Some k \<longrightarrow> waitMap c k = None) \<or>
   (\<exists>k e. eventKey ob = Some k \<and> waitMap c k = Some e \<and>
      calls (snd (handleEvent rt ob ev c)) = calls c @ [(k, ob, ev = delete)])"
proof (cases "eventKey ob")
  case None
  then obtain l where "snd (handleEvent rt ob ev c) = c\<lparr>klog := klog c @ l\<rparr>"
    using handleEvent_unkeyed by blast
  then show ?thesis using None by simp
next
  case (Some k)
  from Some obtain nm where nm: "GetName ob = Some nm" by (auto dest: eventKey_SomeD)
  show ?thesis
  proof (cases "waitMap c k")
    case None
    then show ?thesis using Some by (simp add: handleEvent_no_entry)
  next
    case (Some e)
    show ?thesis
      using \<open>eventKey ob = Some k\<close> Some
      by (simp add: handleEvent_matched [OF \<open>eventKey ob = Some k\<close> Some nm] Let_def
            split: prod.splits)
  qed
qed

lemma dispatch_handleEvent:
  "\<exists>ev. dispatch rt n c = handleEvent rt (subject n) ev c"
  by (cases n) (auto simp: onCreate_def onUpdate_def onDelete_def)

lemma wellFormed_handleEvents:
  "wellFormed c \<Longrightarrow> wellFormed (snd (handleEvents rt ns c))"
proof (induction ns arbitrary: c)
  case Nil
  then show ?case by simp
next
  case (Cons n ns)
  obtain p c' where d: "dispatch rt n c = (p, c')" by (cases "dispatch rt n c")
  obtain ev where ev: "dispatch rt n c = handleEvent rt (subject n) ev c"
    using dispatch_handleEvent by blast
  have w: "wellFormed c'"
    using wellFormed_handleEvent [OF Cons.prems, of rt "subject n" ev] d ev by simp
  show ?case
  proof (cases p)
    case None
    then show ?thesis using d Cons.IH [OF w] by simp
  next
    case (Some q)
    then show ?thesis using d w by simp
  qed
qed

lemma handleEvents_chan:
  "cap (chans (snd (handleEvents rt ns c)) i) = cap (chans c i) \<and>
   closed (chans (snd (handleEvents rt ns c)) i) = closed (chans c i) \<and>
   (\<exists>rs. buf (chans (snd (handleEvents rt ns c)) i) = buf (chans c i) @ rs)"
proof (induction ns arbitrary: c)
  case Nil
  show ?case by simp
next
  case (Cons n ns)
  obtain p c' where d: "dispatch rt n c = (p, c')" by (cases "dispatch rt n c")
  obtain ev where ev: "dispatch rt n c = handleEvent rt (subject n) ev c"
    using dispatch_handleEvent by blast
  have c': "c' = snd (handleEvent rt (subject n) ev c)" using d ev by simp
  have s: "cap (chans c' i) = cap (chans c i) \<and> closed (chans c' i) = closed (chans c i) \<and>
      (\<exists>rs. buf (chans c' i) = buf (chans c i) @ rs)"
    unfolding c' using handleEvent_chan_step [of rt "subject n" ev c i] by auto
  show ?case
  proof (cases p)
    case None
    then show ?thesis using d s Cons.IH [of c'] by auto
  next
    case (Some q)
    then show ?thesis using d s by simp
  qed
qed

lemma handleEvent_occupied:
  assumes "eventKey ob = Some k" and "waitMap c k = Some e" and "GetName ob = Some nm"
    and "\<not> closed (chans c (waitChan e))"
    and "cap (chans c (waitChan e)) \<le> length (buf (chans c (waitChan e)))"
  shows "handleEvent rt ob ev c =
    (None, c\<lparr>calls := calls c @ [(k, ob, ev = delete)],
             klog := klog c @
               [V5_FoundEntry nm,
                V5_ConditionResult (fst (conditionFunc e ob (ev = delete)))
                  (snd (conditionFunc e ob (ev = delete)))] @
               (if snd (conditionFunc e ob (ev = delete)) = None \<and>
                   \<not> fst (conditionFunc e ob (ev = delete))
                then [] else [Info_ChanOccupiedOrClosed nm])\<rparr>)"
  using assms(4,5)
  by (auto simp: handleEvent_matched [OF assms(1) assms(2) assms(3)] Let_def split: prod.splits)

subsection \<open>The polling loop\<close>

lemma WaitForCacheSync_SomeD:
  assumes "WaitForCacheSync stopCh cacheSyncs t = Some y"
  shows "t \<le> snd y \<and> fst y = list_all (\<lambda>syncFunc. syncFunc (snd y)) cacheSyncs \<and>
         (\<not> fst y \<longrightarrow> stopCh (snd y)) \<and>
         (\<forall>v. t \<le> v \<and> v < snd y \<longrightarrow>
              \<not> list_all (\<lambda>syncFunc. syncFunc v) cacheSyncs \<and> \<not> stopCh v)"
proof (rule WaitForCacheSync.raw_induct
    [where P = "\<lambda>stopCh cacheSyncs t y.
         t \<le> snd y \<and> fst y = list_all (\<lambda>syncFunc. syncFunc (snd y)) cacheSyncs \<and>
         (\<not> fst y \<longrightarrow> stopCh (snd y)) \<and>
         (\<forall>v. t \<le> v \<and> v < snd y \<longrightarrow>
              \<not> list_all (\<lambda>syncFunc. syncFunc v) cacheSyncs \<and> \<not> stopCh v)", OF _ assms])
  fix poll :: "(nat \<Rightarrow> bool) \<Rightarrow> (nat \<Rightarrow> bool) list \<Rightarrow> nat \<Rightarrow> (bool \<times> nat) option"
    and stopCh cacheSyncs t y
  assume ih: "\<And>stopCh cacheSyncs t y. poll stopCh cacheSyncs t = Some y \<Longrightarrow>
         t \<le> snd y \<and> fst y = list_all (\<lambda>syncFunc. syncFunc (snd y)) cacheSyncs \<and>
         (\<not> fst y \<longrightarrow> stopCh (snd y)) \<and>
         (\<forall>v. t \<le> v \<and> v < snd y \<longrightarrow>
              \<not> list_all (\<lambda>syncFunc. syncFunc v) cacheSyncs \<and> \<not> stopCh v)"
    and eq: "(if list_all (\<lambda>syncFunc. syncFunc t) cacheSyncs then Some (True, t)
      else if stopCh t then Some (False, t)
      else poll stopCh cacheSyncs (Suc t)) = Some y"
  show "t \<le> snd y \<and> fst y = list_all (\<lambda>syncFunc. syncFunc (snd y)) cacheSyncs \<and>
         (\<not> fst y \<longrightarrow> stopCh (snd y)) \<and>
         (\<forall>v. t \<le> v \<and> v < snd y \<longrightarrow>
              \<not> list_all (\<lambda>syncFunc. syncFunc v) cacheSyncs \<and> \<not> stopCh v)"
  proof (cases "list_all (\<lambda>syncFunc. syncFunc t) cacheSyncs")
    case True
    then show ?thesis using eq by auto
  next
    case False
    show ?thesis
    proof (cases "stopCh t")
      case True
      then show ?thesis using False eq by auto
    next
      case nostop: False
      then have "poll stopCh cacheSyncs (Suc t) = Some y"
        using False eq by simp
      from ih [OF this] have r: "Suc t \<le> snd y"
        "fst y = list_all (\<lambda>syncFunc. syncFunc (snd y)) cacheSyncs"
        "\<not> fst y \<longrightarrow> stopCh (snd y)"
        "\<forall>v. Suc t \<le> v \<and> v < snd y \<longrightarrow>
              \<not> list_all (\<lambda>syncFunc. syncFunc v) cacheSyncs \<and> \<not> stopCh v"
        by blast+
      have "\<not> list_all (\<lambda>syncFunc. syncFunc v) cacheSyncs \<and> \<not> stopCh v"
        if "t \<le> v" "v < snd y" for v
      proof (cases "v = t")
        case True
        then show ?thesis using False nostop by simp
      next
        case False
        then have "Suc t \<le> v" using that by simp
        then show ?thesis using r(4) that by blast
      qed
      then show ?thesis using r by auto
    qed
  qed
qed

lemma WaitForCacheSync_returns:
  assumes "list_all (\<lambda>syncFunc. syncFunc u) cacheSyncs \<or> stopCh u" and "t \<le> u"
  shows "\<exists>y. WaitForCacheSync stopCh cacheSyncs t = Some y \<and> snd y \<le> u"
  using assms(2)
proof (induction "u - t" arbitrary: t)
  case 0
  then have "t = u" by simp
  then show ?case using assms(1) by (auto simp: WaitForCacheSync.simps [of stopCh cacheSyncs u])
next
  case (Suc d)
  then have "d = u - Suc t" "Suc t \<le> u" by auto
  from Suc(1) [OF this] obtain y where
    "WaitForCacheSync stopCh cacheSyncs (Suc t) = Some y" "snd y \<le> u" by blast
  then show ?case
    using Suc(3) by (cases y) (auto simp: WaitForCacheSync.simps [of stopCh cacheSyncs t])
qed

lemma WaitForCacheSync_never:
  assumes "\<forall>u\<ge>t. \<not> list_all (\<lambda>syncFunc. syncFunc u) cacheSyncs \<and> \<not> stopCh u"
  shows "WaitForCacheSync stopCh cacheSyncs t = None"
proof (rule ccontr)
  assume "WaitForCacheSync stopCh cacheSyncs t \<noteq> None"
  then obtain y where "WaitForCacheSync stopCh cacheSyncs t = Some y" by auto
  from WaitForCacheSync_SomeD [OF this] assms show False by auto
qed

subsection \<open>The constructor\<close>

lemma New_eq:
  "(New ctxDone informerFactory ns :: (exit + 'a ConditionWatcher \<times> SharedInformerFactory \<times> nat) option) =
    (case WaitForCacheSync ctxDone
             [HasSynced (AzVolumeAttachments informerFactory), HasSynced (AzVolumes informerFactory),
              HasSynced (AzDriverNodes informerFactory)] 0 of
       None \<Rightarrow> None
     | Some y \<Rightarrow>
         if \<not> fst y then Some (Inl (Fatal ''Unable to sync caches for azuredisk CRIs''))
         else Some (Inr
           (\<lparr>waitMap = Map.empty, namespace = ns,
             chans = (\<lambda>_. \<lparr>buf = [], cap = 0, closed = False\<rparr>), nextChan = 0,
             klog = [], calls = []\<rparr>,
            informerFactory
              \<lparr>AzVolumeAttachments := AddEventHandler
                 \<lparr>AddFunc = OnCreate, UpdateFunc = OnUpdate, DeleteFunc = OnDelete\<rparr>
                 (AzVolumeAttachments informerFactory),
               AzVolumes := AddEventHandler
                 \<lparr>AddFunc = OnCreate, UpdateFunc = OnUpdate, DeleteFunc = OnDelete\<rparr>
                 (AzVolumes informerFactory),
               AzDriverNodes := AddEventHandler
                 \<lparr>AddFunc = OnCreate, UpdateFunc = OnUpdate, DeleteFunc = OnDelete\<rparr>
                 (AzDriverNodes informerFactory),
               started := True\<rparr>,
            snd y)))"
  by (simp add: New_def Let_def AddEventHandler_def split: option.splits prod.splits)

subsection \<open>Reachable states\<close>

lemma New_open:
  assumes "New ctxDone informerFactory ns = Some (Inr (c, f, t))"
  shows "\<not> closed (chans c i)"
  using assms by (auto simp: New_eq split: option.splits if_splits)

lemma reachable_wellFormed: "reachable c \<Longrightarrow> wellFormed c"
proof (induction rule: reachable.induct)
  case (created ctxDone informerFactory ns c f t)
  then show ?case by (rule wellFormed_New)
next
  case (registered c ty nm p)
  then show ?case by (simp add: wellFormed_NewConditionWaiter)
next
  case (handled c rt ob ev)
  then show ?case by (simp add: wellFormed_handleEvent)
next
  case (received c i)
  then show ?case by (simp add: wellFormed_recv)
qed

lemma reachable_open: "reachable c \<Longrightarrow> \<not> closed (chans c i)"
proof (induction arbitrary: i rule: reachable.induct)
  case (created ctxDone informerFactory ns c f t)
  then show ?case by (rule New_open)
next
  case (registered c ty nm p)
  then show ?case
    by (cases "waitMap c (getTypedName ty nm)")
       (simp_all add: NewConditionWaiter_free NewConditionWaiter_taken)
next
  case (handled c rt ob ev)
  then show ?case using handleEvent_chan_step [of rt ob ev c i] by simp
next
  case (received c j)
  then show ?case by (simp add: recv_def split: list.splits)
qed

lemma reachable_emptyWatcher: "reachable emptyWatcher"
proof -
  have "WaitForCacheSync (\<lambda>_. False)
          [HasSynced (AzVolumeAttachments exampleFactory), HasSynced (AzVolumes exampleFactory),
           HasSynced (AzDriverNodes exampleFactory)] 0 \<noteq> None"
    using WaitForCacheSync_returns [of 3 _ "\<lambda>_. False" 0] by (force simp: exampleFactory_def)
  then obtain y where y: "WaitForCacheSync (\<lambda>_. False)
          [HasSynced (AzVolumeAttachments exampleFactory), HasSynced (AzVolumes exampleFactory),
           HasSynced (AzDriverNodes exampleFactory)] 0 = Some y"
    by blast
  have "fst y" using WaitForCacheSync_SomeD [OF y] by auto
  then have "\<exists>f t. (New (\<lambda>_. False) exampleFactory ''azure-disk-csi''
      :: (exit + string ConditionWatcher \<times> SharedInformerFactory \<times> nat) option) =
      Some (Inr (emptyWatcher, f, t))"
    using y by (simp add: New_eq emptyWatcher_def)
  then show ?thesis by (auto intro: reachable.created)
qed

lemma reachable_oneWaiter: "reachable oneWaiter"
  unfolding oneWaiter_def by (rule reachable.registered [OF reachable_emptyWatcher])

lemma reachable_twoWaiters: "reachable twoWaiters"
  unfolding twoWaiters_def by (rule reachable.registered [OF reachable_oneWaiter])



section \<open>The claims about the condition watcher\<close>

text \<open>
  C1. \<^verbatim>\<open>NewConditionWaiter\<close> stores a wait entry for the key of (objType, objName) only
  if the registry has none for it: on a free key it returns the handle, whose entry
  (the caller's predicate and a fresh, empty, open channel of capacity one) is now the
  registry's entry for the key; on a taken key it returns the \<^verbatim>\<open>Aborted\<close> status error
  ("another wait operation in process") and leaves the registry as it was. Hence of two
  registrations for one key, with any notifications handled in between and no removal,
  the second is always refused and the entry stored by the first stays; when the key
  was free the first succeeds, so exactly one of the two does. One call is one atomic
  step, as its only access to the registry is the atomic \<^verbatim>\<open>LoadOrStore\<close>; the other
  order of two racing calls is this statement with the two predicates exchanged.
\<close>

theorem NewConditionWaiter_single_waiter:
  "(waitMap c (getTypedName ty nm) = None \<longrightarrow>
      (\<exists>w c1. NewConditionWaiter ty nm f1 c = (Inr w, c1) \<and>
         objType w = ty \<and> objName w = nm \<and> conditionFunc (entry w) = f1 \<and>
         waitMap c1 = (waitMap c)(getTypedName ty nm \<mapsto> entry w) \<and>
         chans c1 (waitChan (entry w)) = \<lparr>buf = [], cap = 1, closed = False\<rparr>)) \<and>
   (\<forall>e. waitMap c (getTypedName ty nm) = Some e \<longrightarrow>
      (\<exists>c1. NewConditionWaiter ty nm f1 c =
           (Inl (Status Aborted
              (''another wait operation in process for '' @ ty @ '' ('' @ nm @ '')'')), c1) \<and>
         waitMap c1 = waitMap c)) \<and>
   fst (NewConditionWaiter ty nm f2
          (snd (handleEvents rt ns (snd (NewConditionWaiter ty nm f1 c))))) =
     Inl (Status Aborted (''another wait operation in process for '' @ ty @ '' ('' @ nm @ '')'')) \<and>
   waitMap (snd (NewConditionWaiter ty nm f2
          (snd (handleEvents rt ns (snd (NewConditionWaiter ty nm f1 c)))))) =
     waitMap (snd (NewConditionWaiter ty nm f1 c))"
proof (intro conjI allI impI)
  assume "waitMap c (getTypedName ty nm) = None"
  then show "\<exists>w c1. NewConditionWaiter ty nm f1 c = (Inr w, c1) \<and>
         objType w = ty \<and> objName w = nm \<and> conditionFunc (entry w) = f1 \<and>
         waitMap c1 = (waitMap c)(getTypedName ty nm \<mapsto> entry w) \<and>
         chans c1 (waitChan (entry w)) = \<lparr>buf = [], cap = 1, closed = False\<rparr>"
    by (simp add: NewConditionWaiter_free)
next
  fix e assume "waitMap c (getTypedName ty nm) = Some e"
  then show "\<exists>c1. NewConditionWaiter ty nm f1 c =
           (Inl (Status Aborted
              (''another wait operation in process for '' @ ty @ '' ('' @ nm @ '')'')), c1) \<and>
         waitMap c1 = waitMap c"
    by (simp add: NewConditionWaiter_taken)
next
  let ?c1 = "snd (NewConditionWaiter ty nm f1 c)"
  let ?c2 = "snd (handleEvents rt ns ?c1)"
  have "\<exists>e. waitMap ?c1 (getTypedName ty nm) = Some e"
    by (cases "waitMap c (getTypedName ty nm)")
      (auto simp: NewConditionWaiter_free NewConditionWaiter_taken)
  then obtain e where e: "waitMap ?c2 (getTypedName ty nm) = Some e"
    by (auto simp: handleEvents_waitMap)
  show "fst (NewConditionWaiter ty nm f2 ?c2) =
     Inl (Status Aborted (''another wait operation in process for '' @ ty @ '' ('' @ nm @ '')''))"
    by (simp add: NewConditionWaiter_taken [OF e])
  show "waitMap (snd (NewConditionWaiter ty nm f2 ?c2)) = waitMap ?c1"
    by (simp add: NewConditionWaiter_taken [OF e] handleEvents_waitMap)
qed

theorem NewConditionWaiter_single_waiter_witness:
  "waitMap emptyWatcher (getTypedName AzVolumeType ''v1'') = None \<and>
   (\<exists>w. fst (NewConditionWaiter AzVolumeType ''v1'' isReady emptyWatcher) = Inr w \<and>
        waitMap oneWaiter (getTypedName AzVolumeType ''v1'') = Some (entry w)) \<and>
   waitMap oneWaiter (getTypedName AzVolumeType ''v1'') =
     Some \<lparr>conditionFunc = isReady, waitChan = 0\<rparr> \<and>
   fst (NewConditionWaiter AzVolumeType ''v1'' untilRemoved
          (snd (handleEvents (\<lambda>_. True) [Update (AzVolume ''v1'' ''Pending'') (AzVolume ''v1'' ''Ready'')]
             oneWaiter))) =
     Inl (Status Aborted ''another wait operation in process for azvolume (v1)'') \<and>
   waitMap (snd (NewConditionWaiter AzVolumeType ''v1'' untilRemoved
          (snd (handleEvents (\<lambda>_. True) [Update (AzVolume ''v1'' ''Pending'') (AzVolume ''v1'' ''Ready'')]
             oneWaiter)))) (getTypedName AzVolumeType ''v1'') =
     Some \<lparr>conditionFunc = isReady, waitChan = 0\<rparr>"
proof -
  let ?ns = "[Update (AzVolume ''v1'' ''Pending'') (AzVolume ''v1'' ''Ready'')]"
  let ?k = "getTypedName AzVolumeType ''v1''"
  have free: "waitMap emptyWatcher ?k = None"
    by (simp add: emptyWatcher_def)
  note inst = NewConditionWaiter_single_waiter
    [of emptyWatcher AzVolumeType "''v1''" isReady untilRemoved "\<lambda>_. True" ?ns]
  from inst free obtain w c1 where
      w: "NewConditionWaiter AzVolumeType ''v1'' isReady emptyWatcher = (Inr w, c1)"
      and m: "waitMap c1 = (waitMap emptyWatcher)(?k \<mapsto> entry w)"
    by blast
  have c1: "c1 = oneWaiter" using w by (simp add: oneWaiter_def)
  have one: "waitMap oneWaiter ?k = Some \<lparr>conditionFunc = isReady, waitChan = 0\<rparr>"
    by (simp add: oneWaiter_eq getTypedName_def AzVolumeType_def)
  have msg: "''another wait operation in process for '' @ AzVolumeType @ '' ('' @ ''v1'' @ '')''
      = ''another wait operation in process for azvolume (v1)''"
    by (simp add: AzVolumeType_def)
  have second: "fst (NewConditionWaiter AzVolumeType ''v1'' untilRemoved
          (snd (handleEvents (\<lambda>_. True) ?ns oneWaiter))) =
     Inl (Status Aborted ''another wait operation in process for azvolume (v1)'')"
    using inst unfolding oneWaiter_def msg by blast
  have kept: "waitMap (snd (NewConditionWaiter AzVolumeType ''v1'' untilRemoved
          (snd (handleEvents (\<lambda>_. True) ?ns oneWaiter)))) = waitMap oneWaiter"
    using inst unfolding oneWaiter_def by blast
  have first: "\<exists>w. fst (NewConditionWaiter AzVolumeType ''v1'' isReady emptyWatcher) = Inr w \<and>
        waitMap oneWaiter ?k = Some (entry w)"
    using w m c1 by auto
  have last: "waitMap (snd (NewConditionWaiter AzVolumeType ''v1'' untilRemoved
          (snd (handleEvents (\<lambda>_. True) ?ns oneWaiter)))) ?k =
     Some \<lparr>conditionFunc = isReady, waitChan = 0\<rparr>"
    by (simp only: kept one)
  show ?thesis
    by (intro conjI free first one second last)
qed

text \<open>
  C2. As stated the claim does not hold over the entry's whole lifetime: the router
  keeps no record of a delivery and never removes an entry, so once the waiter has
  taken the result out of the slot, a later terminal notification for the key, still
  registered, is placed in the slot again (the example after the witness below). What
  the router guarantees is about the slot between two receives.

  In a well-formed state, for a registered entry whose channel is open, after any run
  of notifications through the router: the channel still has capacity one and holds
  at most one result; the router only ever appends to it, so with the capacity at most
  one result is placed in it over the whole run; and a result that is in the slot stays
  the slot's content (the first terminal result wins). While the slot is occupied,
  every notification for the entry's key returns normally, leaves every channel and the
  registry as they were, and writes to the log: the two verbose lines and, when the
  predicate produced a terminal result, the line saying that the channel is occupied or
  closed.
\<close>

theorem result_slot_single_delivery:
  fixes c :: "'a ConditionWatcher"
  assumes "wellFormed c" and "waitMap c k = Some e" and "\<not> closed (chans c (waitChan e))"
  shows
  "cap (chans (snd (handleEvents rt ns c)) (waitChan e)) = 1 \<and>
   length (buf (chans (snd (handleEvents rt ns c)) (waitChan e))) \<le> 1 \<and>
   (\<exists>rs. buf (chans (snd (handleEvents rt ns c)) (waitChan e)) = buf (chans c (waitChan e)) @ rs) \<and>
   (\<forall>r. buf (chans c (waitChan e)) = [r] \<longrightarrow>
        buf (chans (snd (handleEvents rt ns c)) (waitChan e)) = [r]) \<and>
   (\<forall>r ob ev nm. buf (chans c (waitChan e)) = [r] \<longrightarrow> eventKey ob = Some k \<longrightarrow>
        GetName ob = Some nm \<longrightarrow>
        fst (handleEvent rt ob ev c) = None \<and>
        chans (snd (handleEvent rt ob ev c)) = chans c \<and>
        waitMap (snd (handleEvent rt ob ev c)) = waitMap c \<and>
        klog (snd (handleEvent rt ob ev c)) = klog c @
          [V5_FoundEntry nm,
           V5_ConditionResult (fst (conditionFunc e ob (ev = delete)))
             (snd (conditionFunc e ob (ev = delete)))] @
          (if snd (conditionFunc e ob (ev = delete)) = None \<and>
              \<not> fst (conditionFunc e ob (ev = delete))
           then [] else [Info_ChanOccupiedOrClosed nm]))"
proof -
  let ?c' = "snd (handleEvents rt ns c)"
  have w': "wellFormed ?c'" using assms(1) by (rule wellFormed_handleEvents)
  have m': "waitMap ?c' k = Some e" using assms(2) by (simp add: handleEvents_waitMap)
  have cap1: "cap (chans c (waitChan e)) = 1"
    using assms(1,2) by (auto simp: wellFormed_def)
  have a: "cap (chans ?c' (waitChan e)) = 1" and b: "length (buf (chans ?c' (waitChan e))) \<le> 1"
    using w' m' by (auto simp: wellFormed_def)
  obtain rs where rs: "buf (chans ?c' (waitChan e)) = buf (chans c (waitChan e)) @ rs"
    using handleEvents_chan [of rt ns c "waitChan e"] by blast
  have d: "\<forall>r. buf (chans c (waitChan e)) = [r] \<longrightarrow> buf (chans ?c' (waitChan e)) = [r]"
    using rs b by auto
  have s: "\<forall>r ob ev nm. buf (chans c (waitChan e)) = [r] \<longrightarrow> eventKey ob = Some k \<longrightarrow>
        GetName ob = Some nm \<longrightarrow>
        fst (handleEvent rt ob ev c) = None \<and>
        chans (snd (handleEvent rt ob ev c)) = chans c \<and>
        waitMap (snd (handleEvent rt ob ev c)) = waitMap c \<and>
        klog (snd (handleEvent rt ob ev c)) = klog c @
          [V5_FoundEntry nm,
           V5_ConditionResult (fst (conditionFunc e ob (ev = delete)))
             (snd (conditionFunc e ob (ev = delete)))] @
          (if snd (conditionFunc e ob (ev = delete)) = None \<and>
              \<not> fst (conditionFunc e ob (ev = delete))
           then [] else [Info_ChanOccupiedOrClosed nm])"
  proof (intro allI impI)
    fix r and ob :: "'a object" and ev nm
    assume full: "buf (chans c (waitChan e)) = [r]" and k: "eventKey ob = Some k"
      and nm: "GetName ob = Some nm"
    have le: "cap (chans c (waitChan e)) \<le> length (buf (chans c (waitChan e)))"
      using full cap1 by simp
    show "fst (handleEvent rt ob ev c) = None \<and>
        chans (snd (handleEvent rt ob ev c)) = chans c \<and>
        waitMap (snd (handleEvent rt ob ev c)) = waitMap c \<and>
        klog (snd (handleEvent rt ob ev c)) = klog c @
          [V5_FoundEntry nm,
           V5_ConditionResult (fst (conditionFunc e ob (ev = delete)))
             (snd (conditionFunc e ob (ev = delete)))] @
          (if snd (conditionFunc e ob (ev = delete)) = None \<and>
              \<not> fst (conditionFunc e ob (ev = delete))
           then [] else [Info_ChanOccupiedOrClosed nm])"
      by (simp add: handleEvent_occupied [OF k assms(2) nm assms(3) le])
  qed
  show ?thesis using a b rs d s by blast
qed

theorem result_slot_single_delivery_witness:
  "wellFormed deliveredOnce \<and>
   buf (chans deliveredOnce 0) = [\<lparr>obj = Some (AzVolume ''v1'' ''Ready''), err = None\<rparr>] \<and>
   buf (chans (snd (handleEvents (\<lambda>_. True)
          [Update (AzVolume ''v1'' ''Ready'') (AzVolume ''v1'' ''Ready''),
           Delete (AzVolume ''v1'' ''Ready'')] deliveredOnce)) 0) =
     [\<lparr>obj = Some (AzVolume ''v1'' ''Ready''), err = None\<rparr>] \<and>
   fst (handleEvent (\<lambda>_. True) (AzVolume ''v1'' ''Ready'') delete deliveredOnce) = None \<and>
   chans (snd (handleEvent (\<lambda>_. True) (AzVolume ''v1'' ''Ready'') delete deliveredOnce)) =
     chans deliveredOnce \<and>
   klog (snd (handleEvent (\<lambda>_. True) (AzVolume ''v1'' ''Ready'') delete deliveredOnce)) =
     klog deliveredOnce @ [V5_FoundEntry ''v1'', V5_ConditionResult True None,
        Info_ChanOccupiedOrClosed ''v1''] \<and>
   length (buf (chans (snd (handleEvents (\<lambda>_. True)
          [Add (AzVolume ''v1'' ''Pending''),
           Update (AzVolume ''v1'' ''Pending'') (AzVolume ''v1'' ''Ready''),
           Update (AzVolume ''v1'' ''Ready'') (AzVolume ''v1'' ''Ready'')] oneWaiter)) 0)) \<le> 1"
proof -
  let ?e = "\<lparr>conditionFunc = isReady, waitChan = 0\<rparr>"
  let ?r = "\<lparr>obj = Some (AzVolume ''v1'' ''Ready''), err = None\<rparr> :: string waitResult"
  have m: "waitMap deliveredOnce ''azvolume/v1'' = Some ?e"
    and o: "\<not> closed (chans deliveredOnce (waitChan ?e))"
    and f: "buf (chans deliveredOnce (waitChan ?e)) = [?r]"
    by (simp_all add: deliveredOnce_eq)
  have m1: "waitMap oneWaiter ''azvolume/v1'' = Some ?e"
    and o1: "\<not> closed (chans oneWaiter (waitChan ?e))"
    by (simp_all add: oneWaiter_eq)
  have k: "eventKey (AzVolume ''v1'' ''Ready'' :: string object) = Some ''azvolume/v1''"
    by (simp add: eventKey_examples)
  note run = result_slot_single_delivery [OF wellFormed_deliveredOnce m o, of "\<lambda>_. True"
      "[Update (AzVolume ''v1'' ''Ready'') (AzVolume ''v1'' ''Ready''),
        Delete (AzVolume ''v1'' ''Ready'')]"]
  have a: "buf (chans (snd (handleEvents (\<lambda>_. True)
          [Update (AzVolume ''v1'' ''Ready'') (AzVolume ''v1'' ''Ready''),
           Delete (AzVolume ''v1'' ''Ready'')] deliveredOnce)) 0) = [?r]"
    using run f by simp
  have s: "fst (handleEvent (\<lambda>_. True) (AzVolume ''v1'' ''Ready'') delete deliveredOnce) = None \<and>
      chans (snd (handleEvent (\<lambda>_. True) (AzVolume ''v1'' ''Ready'') delete deliveredOnce)) =
        chans deliveredOnce \<and>
      klog (snd (handleEvent (\<lambda>_. True) (AzVolume ''v1'' ''Ready'') delete deliveredOnce)) =
        klog deliveredOnce @ [V5_FoundEntry ''v1'', V5_ConditionResult True None,
            Info_ChanOccupiedOrClosed ''v1'']"
    using run f k by (simp add: isReady_def)
  have b: "length (buf (chans (snd (handleEvents (\<lambda>_. True)
          [Add (AzVolume ''v1'' ''Pending''),
           Update (AzVolume ''v1'' ''Pending'') (AzVolume ''v1'' ''Ready''),
           Update (AzVolume ''v1'' ''Ready'') (AzVolume ''v1'' ''Ready'')] oneWaiter)) 0)) \<le> 1"
    using result_slot_single_delivery [OF wellFormed_oneWaiter m1 o1, of "\<lambda>_. True"
      "[Add (AzVolume ''v1'' ''Pending''),
           Update (AzVolume ''v1'' ''Pending'') (AzVolume ''v1'' ''Ready''),
           Update (AzVolume ''v1'' ''Ready'') (AzVolume ''v1'' ''Ready'')]"]
    by simp
  show ?thesis
    using wellFormed_deliveredOnce f a s b by simp
qed

text \<open>
  The waiter for \<open>v1\<close> has been sent its result and takes it; its key is still
  registered. The next satisfied update for \<open>v1\<close> is not dropped: it is placed in the
  slot as a second result, and the log has no line about an occupied channel.
\<close>

theorem second_result_after_receive:
  "buf (chans deliveredOnce 0) = [\<lparr>obj = Some (AzVolume ''v1'' ''Ready''), err = None\<rparr>] \<and>
   fst (recv 0 deliveredOnce) = Some \<lparr>obj = Some (AzVolume ''v1'' ''Ready''), err = None\<rparr> \<and>
   waitMap (snd (recv 0 deliveredOnce)) ''azvolume/v1'' =
     Some \<lparr>conditionFunc = isReady, waitChan = 0\<rparr> \<and>
   fst (handleEvent (\<lambda>_. True) (AzVolume ''v1'' ''Ready'') update (snd (recv 0 deliveredOnce))) =
     None \<and>
   buf (chans (snd (handleEvent (\<lambda>_. True) (AzVolume ''v1'' ''Ready'') update
                      (snd (recv 0 deliveredOnce)))) 0) =
     [\<lparr>obj = Some (AzVolume ''v1'' ''Ready''), err = None\<rparr>] \<and>
   klog (snd (handleEvent (\<lambda>_. True) (AzVolume ''v1'' ''Ready'') update
                (snd (recv 0 deliveredOnce)))) =
     klog deliveredOnce @ [V5_FoundEntry ''v1'', V5_ConditionResult True None]"
proof -
  let ?c1 = "snd (recv 0 deliveredOnce)"
  have k: "eventKey (AzVolume ''v1'' ''Ready'' :: string object) = Some ''azvolume/v1''"
    by (simp add: eventKey_examples)
  have m1: "waitMap ?c1 ''azvolume/v1'' = Some \<lparr>conditionFunc = isReady, waitChan = 0\<rparr>"
    by (simp add: recv_def deliveredOnce_eq)
  have n: "GetName (AzVolume ''v1'' ''Ready'' :: string object) = Some ''v1''" by simp
  show ?thesis
    unfolding handleEvent_matched [OF k m1 n]
    by (simp add: isReady_def recv_def deliveredOnce_eq)
qed

text \<open>
  C3. For a notification whose key has a registered entry, with (ok, er) the answer of
  the entry's predicate:
  \<^item> \<open>er\<close> present: an error result is placed in the entry's slot (the predicate's
    error together with the object when the object is a \<^verbatim>\<open>runtime.Object\<close>);
  \<^item> no error and \<open>ok\<close>: the object is placed in the slot as a success result;
  \<^item> no error and not \<open>ok\<close>: no channel changes and the registry is unchanged, so the
    entry stays registered.
  "Delivered" is read as placed in the slot, which needs the slot to be free and the
  channel open; the occupied slot is the subject of C2. The success case is stated for
  objects that implement \<^verbatim>\<open>runtime.Object\<close>, as the generated API types do; C9 is the
  other case.
\<close>

theorem handleEvent_interprets_predicate:
  assumes "eventKey ob = Some k" and "waitMap c k = Some e"
    and "conditionFunc e ob (ev = delete) = (ok, er)"
  shows
  "(er \<noteq> None \<longrightarrow> \<not> closed (chans c (waitChan e)) \<longrightarrow>
      length (buf (chans c (waitChan e))) < cap (chans c (waitChan e)) \<longrightarrow>
      fst (handleEvent rt ob ev c) = None \<and>
      (\<exists>r. buf (chans (snd (handleEvent rt ob ev c)) (waitChan e)) =
             buf (chans c (waitChan e)) @ [r] \<and> err r \<noteq> None \<and>
           (rt ob \<longrightarrow> r = \<lparr>obj = Some ob, err = er\<rparr>))) \<and>
   (er = None \<longrightarrow> ok \<longrightarrow> rt ob \<longrightarrow> \<not> closed (chans c (waitChan e)) \<longrightarrow>
      length (buf (chans c (waitChan e))) < cap (chans c (waitChan e)) \<longrightarrow>
      fst (handleEvent rt ob ev c) = None \<and>
      buf (chans (snd (handleEvent rt ob ev c)) (waitChan e)) =
        buf (chans c (waitChan e)) @ [\<lparr>obj = Some ob, err = None\<rparr>]) \<and>
   (er = None \<longrightarrow> \<not> ok \<longrightarrow>
      fst (handleEvent rt ob ev c) = None \<and>
      chans (snd (handleEvent rt ob ev c)) = chans c \<and>
      waitMap (snd (handleEvent rt ob ev c)) = waitMap c)"
proof -
  from assms(1) obtain nm where nm: "GetName ob = Some nm"
    by (auto dest: eventKey_SomeD)
  show ?thesis
    using assms(3)
    by (auto simp: handleEvent_matched [OF assms(1) assms(2) nm] Let_def)
qed

theorem handleEvent_interprets_predicate_witness:
  "buf (chans (snd (handleEvent (\<lambda>_. True) (AzVolumeAttachment ''a1'' ''Attaching'') create
                 failingWaiter)) 0) =
     [\<lparr>obj = Some (AzVolumeAttachment ''a1'' ''Attaching''), err = Some (Plain ''lookup failed'')\<rparr>] \<and>
   buf (chans (snd (handleEvent (\<lambda>_. True) (AzVolume ''v1'' ''Ready'') update oneWaiter)) 0) =
     [\<lparr>obj = Some (AzVolume ''v1'' ''Ready''), err = None\<rparr>] \<and>
   chans (snd (handleEvent (\<lambda>_. True) (AzVolume ''v1'' ''Pending'') update oneWaiter)) =
     chans oneWaiter \<and>
   waitMap (snd (handleEvent (\<lambda>_. True) (AzVolume ''v1'' ''Pending'') update oneWaiter)) =
     waitMap oneWaiter"
proof -
  have a: "buf (chans (snd (handleEvent (\<lambda>_. True) (AzVolumeAttachment ''a1'' ''Attaching'') create
                 failingWaiter)) 0) =
     [\<lparr>obj = Some (AzVolumeAttachment ''a1'' ''Attaching''), err = Some (Plain ''lookup failed'')\<rparr>]"
    using handleEvent_interprets_predicate
      [of "AzVolumeAttachment ''a1'' ''Attaching''" "''azvolumeattachments/a1''" failingWaiter
          "\<lparr>conditionFunc = failing, waitChan = 0\<rparr>" create False "Some (Plain ''lookup failed'')"
          "\<lambda>_. True"]
    by (simp add: eventKey_examples failingWaiter_eq failing_def)
  have b: "buf (chans (snd (handleEvent (\<lambda>_. True) (AzVolume ''v1'' ''Ready'') update oneWaiter)) 0) =
     [\<lparr>obj = Some (AzVolume ''v1'' ''Ready''), err = None\<rparr>]"
    using handleEvent_interprets_predicate
      [of "AzVolume ''v1'' ''Ready''" "''azvolume/v1''" oneWaiter
          "\<lparr>conditionFunc = isReady, waitChan = 0\<rparr>" update True None "\<lambda>_. True"]
    by (simp add: eventKey_examples oneWaiter_eq isReady_def)
  have c: "chans (snd (handleEvent (\<lambda>_. True) (AzVolume ''v1'' ''Pending'') update oneWaiter)) =
     chans oneWaiter \<and>
   waitMap (snd (handleEvent (\<lambda>_. True) (AzVolume ''v1'' ''Pending'') update oneWaiter)) =
     waitMap oneWaiter"
    using handleEvent_interprets_predicate
      [of "AzVolume ''v1'' ''Pending''" "''azvolume/v1''" oneWaiter
          "\<lparr>conditionFunc = isReady, waitChan = 0\<rparr>" update False None "\<lambda>_. True"]
    by (simp add: eventKey_examples oneWaiter_eq isReady_def)
  show ?thesis using a b c by blast
qed



text \<open>
  C5. As stated the claim fails at one kind of object: a nil pointer of one of the
  three API types passes \<^verbatim>\<open>meta.Accessor\<close> and the type switch, and the call
  \<^verbatim>\<open>metaObj.GetName()\<close> that follows panics (the example after the witness below). For
  every other object the claim holds.

  An object matching none of the three cases of the type switch is logged (preceded
  by the metadata error line when it exposes no metadata) and dropped: \<^verbatim>\<open>handleEvent\<close>
  returns normally and the state is the old one with those log lines appended, so the
  registry and every channel are unchanged and no predicate is invoked. Every object
  that is not a nil pointer of an API type is either such an object or yields a
  registry key, and in every reachable state \<^verbatim>\<open>handleEvent\<close> returns normally for it.
\<close>

theorem unsupported_object_dropped:
  "(typeSwitch ob = None \<longrightarrow>
      handleEvent rt ob ev c =
        (None, c\<lparr>klog := klog c @
            (if Accessor ob then [] else [Error_NoMetaObject]) @
            [Error_UnsupportedType (TypeOf ob)]\<rparr>)) \<and>
   (\<not> nilPointer ob \<longrightarrow> typeSwitch ob = None \<or> (\<exists>k. eventKey ob = Some k)) \<and>
   (reachable c \<longrightarrow> \<not> nilPointer ob \<longrightarrow> fst (handleEvent rt ob ev c) = None)"
proof (intro conjI impI)
  assume "typeSwitch ob = None"
  then show "handleEvent rt ob ev c =
        (None, c\<lparr>klog := klog c @
            (if Accessor ob then [] else [Error_NoMetaObject]) @
            [Error_UnsupportedType (TypeOf ob)]\<rparr>)"
    by (rule handleEvent_unsupported)
next
  assume "\<not> nilPointer ob"
  then show "typeSwitch ob = None \<or> (\<exists>k. eventKey ob = Some k)"
    by (cases ob) (simp_all add: eventKey_def)
next
  assume r: "reachable c" and n: "\<not> nilPointer ob"
  show "fst (handleEvent rt ob ev c) = None"
  proof (cases "eventKey ob")
    case None
    then have "typeSwitch ob = None" using n by (cases ob) (simp_all add: eventKey_def)
    then show ?thesis by (simp add: handleEvent_unsupported)
  next
    case (Some k)
    then obtain nm where nm: "GetName ob = Some nm" by (auto dest: eventKey_SomeD)
    show ?thesis
    proof (cases "waitMap c k")
      case None
      then show ?thesis using Some by (simp add: handleEvent_no_entry)
    next
      case (Some e)
      have "\<not> closed (chans c (waitChan e))" using r by (rule reachable_open)
      then show ?thesis
        by (simp add: handleEvent_matched [OF \<open>eventKey ob = Some k\<close> Some nm] Let_def
              split: prod.splits)
    qed
  qed
qed

theorem unsupported_object_dropped_witness:
  "typeSwitch (Other ''cache.DeletedFinalStateUnknown'' None ''tombstone'') = None \<and>
   handleEvent (\<lambda>_. True) (Other ''cache.DeletedFinalStateUnknown'' None ''tombstone'') delete
       twoWaiters =
     (None, twoWaiters\<lparr>klog := klog twoWaiters @
        [Error_NoMetaObject, Error_UnsupportedType ''cache.DeletedFinalStateUnknown'']\<rparr>) \<and>
   reachable twoWaiters \<and>
   eventKey (AzVolume ''v1'' ''Ready'' :: string object) = Some ''azvolume/v1'' \<and>
   fst (handleEvent (\<lambda>_. True) (AzVolume ''v1'' ''Ready'') update twoWaiters) = None"
proof -
  have a: "fst (handleEvent (\<lambda>_. True) (AzVolume ''v1'' ''Ready'') update twoWaiters) = None"
    using unsupported_object_dropped
      [of "AzVolume ''v1'' ''Ready''" "\<lambda>_. True" update twoWaiters] reachable_twoWaiters
    by simp
  have b: "handleEvent (\<lambda>_. True) (Other ''cache.DeletedFinalStateUnknown'' None ''tombstone'') delete
       twoWaiters =
     (None, twoWaiters\<lparr>klog := klog twoWaiters @
        [Error_NoMetaObject, Error_UnsupportedType ''cache.DeletedFinalStateUnknown'']\<rparr>)"
    using unsupported_object_dropped
      [of "Other ''cache.DeletedFinalStateUnknown'' None ''tombstone''" "\<lambda>_. True" delete twoWaiters]
    by simp
  show ?thesis using a b reachable_twoWaiters by (simp add: eventKey_examples)
qed

text \<open>
  A nil pointer of type \<^verbatim>\<open>*diskv1beta1.AzVolume\<close>: \<^verbatim>\<open>meta.Accessor\<close> returns no error, the
  type switch takes the volume case, and \<^verbatim>\<open>handleEvent\<close> panics at \<^verbatim>\<open>GetName\<close>; it neither
  logs nor drops the event.
\<close>

theorem nil_pointer_panics:
  "Accessor (NilAzVolume :: string object) \<and>
   typeSwitch (NilAzVolume :: string object) = Some AzVolumeType \<and>
   handleEvent (\<lambda>_. True) NilAzVolume update oneWaiter = (Some NilDereference, oneWaiter)"
  by (simp add: handleEvent_nil [of _ AzVolumeType])

text \<open>
  C6. \<^verbatim>\<open>New\<close> registers the three handlers with each of the three informers
  (attachments, volumes, driver nodes), starts the factory and waits for the caches.
  \<^item> When it returns a watcher, at round \<open>t\<close>, all three readiness probes answer true
    at \<open>t\<close>, the handlers are registered, the factory is started, and the watcher has
    an empty registry and is well-formed. No watcher exists before that, so
    \<^verbatim>\<open>NewConditionWaiter\<close>, a method of the watcher, cannot be called earlier.
  \<^item> When the context is done before the three caches have been filled together, the
    result is the fatal exit of \<^verbatim>\<open>klog.Fatalf\<close>, not a watcher.
  \<^item> When the caches are filled at some round and the context is not done up to then,
    \<^verbatim>\<open>New\<close> does return a watcher, at that round or before.
  \<^item> When neither ever happens, \<^verbatim>\<open>New\<close> never returns.
\<close>

theorem New_startup_barrier:
  fixes informerFactory :: SharedInformerFactory
  shows
  "(\<forall>(c :: 'a ConditionWatcher) f t. New ctxDone informerFactory ns = Some (Inr (c, f, t)) \<longrightarrow>
      HasSynced (AzVolumeAttachments informerFactory) t \<and>
      HasSynced (AzVolumes informerFactory) t \<and>
      HasSynced (AzDriverNodes informerFactory) t \<and>
      eventHandlers (AzVolumeAttachments f) = eventHandlers (AzVolumeAttachments informerFactory) @
        [\<lparr>AddFunc = OnCreate, UpdateFunc = OnUpdate, DeleteFunc = OnDelete\<rparr>] \<and>
      eventHandlers (AzVolumes f) = eventHandlers (AzVolumes informerFactory) @
        [\<lparr>AddFunc = OnCreate, UpdateFunc = OnUpdate, DeleteFunc = OnDelete\<rparr>] \<and>
      eventHandlers (AzDriverNodes f) = eventHandlers (AzDriverNodes informerFactory) @
        [\<lparr>AddFunc = OnCreate, UpdateFunc = OnUpdate, DeleteFunc = OnDelete\<rparr>] \<and>
      started f \<and> waitMap c = Map.empty \<and> namespace c = ns \<and> wellFormed c) \<and>
   (\<forall>d. ctxDone d \<longrightarrow>
      (\<forall>u. u \<le> d \<longrightarrow> \<not> (HasSynced (AzVolumeAttachments informerFactory) u \<and>
            HasSynced (AzVolumes informerFactory) u \<and> HasSynced (AzDriverNodes informerFactory) u)) \<longrightarrow>
      (New ctxDone informerFactory ns :: (exit + 'a ConditionWatcher \<times> SharedInformerFactory \<times> nat) option) =
        Some (Inl (Fatal ''Unable to sync caches for azuredisk CRIs''))) \<and>
   (\<forall>u. HasSynced (AzVolumeAttachments informerFactory) u \<and> HasSynced (AzVolumes informerFactory) u \<and>
        HasSynced (AzDriverNodes informerFactory) u \<longrightarrow> (\<forall>v. v \<le> u \<longrightarrow> \<not> ctxDone v) \<longrightarrow>
      (\<exists>(c :: 'a ConditionWatcher) f t. New ctxDone informerFactory ns = Some (Inr (c, f, t)) \<and> t \<le> u)) \<and>
   ((\<forall>u. \<not> ctxDone u \<and> \<not> (HasSynced (AzVolumeAttachments informerFactory) u \<and>
            HasSynced (AzVolumes informerFactory) u \<and> HasSynced (AzDriverNodes informerFactory) u)) \<longrightarrow>
      (New ctxDone informerFactory ns :: (exit + 'a ConditionWatcher \<times> SharedInformerFactory \<times> nat) option) = None)"
proof -
  let ?ps = "[HasSynced (AzVolumeAttachments informerFactory), HasSynced (AzVolumes informerFactory),
              HasSynced (AzDriverNodes informerFactory)]"
  let ?S = "\<lambda>u. HasSynced (AzVolumeAttachments informerFactory) u \<and>
      HasSynced (AzVolumes informerFactory) u \<and> HasSynced (AzDriverNodes informerFactory) u"
  have S: "\<And>u. list_all (\<lambda>syncFunc. syncFunc u) ?ps = ?S u" by simp
  have 1: "\<forall>(c :: 'a ConditionWatcher) f t. New ctxDone informerFactory ns = Some (Inr (c, f, t)) \<longrightarrow>
      HasSynced (AzVolumeAttachments informerFactory) t \<and>
      HasSynced (AzVolumes informerFactory) t \<and>
      HasSynced (AzDriverNodes informerFactory) t \<and>
      eventHandlers (AzVolumeAttachments f) = eventHandlers (AzVolumeAttachments informerFactory) @
        [\<lparr>AddFunc = OnCreate, UpdateFunc = OnUpdate, DeleteFunc = OnDelete\<rparr>] \<and>
      eventHandlers (AzVolumes f) = eventHandlers (AzVolumes informerFactory) @
        [\<lparr>AddFunc = OnCreate, UpdateFunc = OnUpdate, DeleteFunc = OnDelete\<rparr>] \<and>
      eventHandlers (AzDriverNodes f) = eventHandlers (AzDriverNodes informerFactory) @
        [\<lparr>AddFunc = OnCreate, UpdateFunc = OnUpdate, DeleteFunc = OnDelete\<rparr>] \<and>
      started f \<and> waitMap c = Map.empty \<and> namespace c = ns \<and> wellFormed c"
  proof (intro allI impI)
    fix c :: "'a ConditionWatcher" and f t
    assume n: "New ctxDone informerFactory ns = Some (Inr (c, f, t))"
    then obtain y where y: "WaitForCacheSync ctxDone ?ps 0 = Some y" and fy: "fst y" and t: "t = snd y"
      by (auto simp: New_eq split: option.splits if_splits)
    have "?S t" using WaitForCacheSync_SomeD [OF y] fy t S by simp
    moreover have "wellFormed c" using n by (rule wellFormed_New)
    ultimately show "HasSynced (AzVolumeAttachments informerFactory) t \<and>
      HasSynced (AzVolumes informerFactory) t \<and>
      HasSynced (AzDriverNodes informerFactory) t \<and>
      eventHandlers (AzVolumeAttachments f) = eventHandlers (AzVolumeAttachments informerFactory) @
        [\<lparr>AddFunc = OnCreate, UpdateFunc = OnUpdate, DeleteFunc = OnDelete\<rparr>] \<and>
      eventHandlers (AzVolumes f) = eventHandlers (AzVolumes informerFactory) @
        [\<lparr>AddFunc = OnCreate, UpdateFunc = OnUpdate, DeleteFunc = OnDelete\<rparr>] \<and>
      eventHandlers (AzDriverNodes f) = eventHandlers (AzDriverNodes informerFactory) @
        [\<lparr>AddFunc = OnCreate, UpdateFunc = OnUpdate, DeleteFunc = OnDelete\<rparr>] \<and>
      started f \<and> waitMap c = Map.empty \<and> namespace c = ns \<and> wellFormed c"
      using n y fy by (auto simp: New_eq AddEventHandler_def)
  qed
  have 2: "(New ctxDone informerFactory ns :: (exit + 'a ConditionWatcher \<times> SharedInformerFactory \<times> nat) option) =
        Some (Inl (Fatal ''Unable to sync caches for azuredisk CRIs''))"
    if d: "ctxDone d" and ns: "\<forall>u. u \<le> d \<longrightarrow> \<not> ?S u" for d
  proof -
    obtain y where y: "WaitForCacheSync ctxDone ?ps 0 = Some y" and le: "snd y \<le> d"
      using WaitForCacheSync_returns [of d ?ps ctxDone 0] d by auto
    have "fst y = ?S (snd y)" using WaitForCacheSync_SomeD [OF y] S by simp
    then have "\<not> fst y" using ns le by simp
    then show ?thesis using y by (simp add: New_eq)
  qed
  have 3: "\<exists>(c :: 'a ConditionWatcher) f t. New ctxDone informerFactory ns = Some (Inr (c, f, t)) \<and> t \<le> u"
    if s: "?S u" and nd: "\<forall>v. v \<le> u \<longrightarrow> \<not> ctxDone v" for u
  proof -
    obtain y where y: "WaitForCacheSync ctxDone ?ps 0 = Some y" and le: "snd y \<le> u"
      using WaitForCacheSync_returns [of u ?ps ctxDone 0] s S by auto
    have "\<not> fst y \<longrightarrow> ctxDone (snd y)" using WaitForCacheSync_SomeD [OF y] by simp
    then have "fst y" using nd le by auto
    then show ?thesis using y le by (simp add: New_eq)
  qed
  have 4: "(New ctxDone informerFactory ns :: (exit + 'a ConditionWatcher \<times> SharedInformerFactory \<times> nat) option) = None"
    if "\<forall>u. \<not> ctxDone u \<and> \<not> ?S u"
  proof -
    have "WaitForCacheSync ctxDone ?ps 0 = None"
      by (rule WaitForCacheSync_never) (use that S in auto)
    then show ?thesis by (simp add: New_eq)
  qed
  show ?thesis using 1 2 3 4 by blast
qed

theorem New_startup_barrier_witness:
  "(\<exists>(c :: string ConditionWatcher) f.
      New (\<lambda>_. False) exampleFactory ''azure-disk-csi'' = Some (Inr (c, f, 3)) \<and>
      eventHandlers (AzVolumes f) =
        [\<lparr>AddFunc = OnCreate, UpdateFunc = OnUpdate, DeleteFunc = OnDelete\<rparr>] \<and>
      waitMap c = Map.empty) \<and>
   (New (\<lambda>t. 5 \<le> t) stalledFactory ''azure-disk-csi''
      :: (exit + string ConditionWatcher \<times> SharedInformerFactory \<times> nat) option) =
     Some (Inl (Fatal ''Unable to sync caches for azuredisk CRIs'')) \<and>
   (New (\<lambda>_. False) stalledFactory ''azure-disk-csi''
      :: (exit + string ConditionWatcher \<times> SharedInformerFactory \<times> nat) option) = None"
proof -
  note ok = New_startup_barrier
    [where 'a = string and ctxDone = "\<lambda>_. False" and informerFactory = exampleFactory
       and ns = "''azure-disk-csi''"]
  note fatal = New_startup_barrier
    [where 'a = string and ctxDone = "\<lambda>t. 5 \<le> t" and informerFactory = stalledFactory
       and ns = "''azure-disk-csi''"]
  note hang = New_startup_barrier
    [where 'a = string and ctxDone = "\<lambda>_. False" and informerFactory = stalledFactory
       and ns = "''azure-disk-csi''"]
  note ok1 = ok [THEN conjunct1, rule_format]
  note ok3 = ok [THEN conjunct2, THEN conjunct2, THEN conjunct1, rule_format, of 3]
  note fatal2 = fatal [THEN conjunct2, THEN conjunct1, rule_format, of 5]
  note hang4 = hang [THEN conjunct2, THEN conjunct2, THEN conjunct2, rule_format]
  have "\<exists>(c :: string ConditionWatcher) f t.
      New (\<lambda>_. False) exampleFactory ''azure-disk-csi'' = Some (Inr (c, f, t)) \<and> t \<le> 3"
    by (rule ok3) (simp_all add: exampleFactory_def)
  then obtain c :: "string ConditionWatcher" and f t where
    n: "New (\<lambda>_. False) exampleFactory ''azure-disk-csi'' = Some (Inr (c, f, t))" and t: "t \<le> 3"
    by blast
  have p: "HasSynced (AzDriverNodes exampleFactory) t"
      "eventHandlers (AzVolumes f) = eventHandlers (AzVolumes exampleFactory) @
        [\<lparr>AddFunc = OnCreate, UpdateFunc = OnUpdate, DeleteFunc = OnDelete\<rparr>]"
      "waitMap c = Map.empty"
    using ok1 [OF n] by simp_all
  have "t = 3" using t p(1) by (simp add: exampleFactory_def)
  then have a: "\<exists>(c :: string ConditionWatcher) f.
      New (\<lambda>_. False) exampleFactory ''azure-disk-csi'' = Some (Inr (c, f, 3)) \<and>
      eventHandlers (AzVolumes f) =
        [\<lparr>AddFunc = OnCreate, UpdateFunc = OnUpdate, DeleteFunc = OnDelete\<rparr>] \<and>
      waitMap c = Map.empty"
    using n p(2,3) by (auto simp: exampleFactory_def)
  have b: "(New (\<lambda>t. 5 \<le> t) stalledFactory ''azure-disk-csi''
      :: (exit + string ConditionWatcher \<times> SharedInformerFactory \<times> nat) option) =
     Some (Inl (Fatal ''Unable to sync caches for azuredisk CRIs''))"
    by (rule fatal2) (simp_all add: stalledFactory_def exampleFactory_def)
  have c: "(New (\<lambda>_. False) stalledFactory ''azure-disk-csi''
      :: (exit + string ConditionWatcher \<times> SharedInformerFactory \<times> nat) option) = None"
    by (rule hang4) (simp add: stalledFactory_def exampleFactory_def)
  show ?thesis by (intro conjI a b c)
qed



text \<open>
  C8. Isolation. In a well-formed state, a notification whose derived key is \<open>k2\<close>
  leaves the entry registered for any other key \<open>k1\<close> alone: the registry still maps
  \<open>k1\<close> to the same entry (predicate and channel), the entry's channel is unchanged, and
  no invocation of \<open>k1\<close>'s predicate is added to the history. This holds whether or not
  \<^verbatim>\<open>handleEvent\<close> panics. Keys are the registry's keys, the typed names; by lemma
  \<open>getTypedName_inj\<close> distinct (type, name) pairs have distinct typed names as long
  as the object types contain no slash, as the three declared ones.
\<close>

theorem handleEvent_isolation:
  assumes "wellFormed c" and "waitMap c k1 = Some e1" and "eventKey ob = Some k2" and "k1 \<noteq> k2"
  shows "waitMap (snd (handleEvent rt ob ev c)) k1 = Some e1 \<and>
     chans (snd (handleEvent rt ob ev c)) (waitChan e1) = chans c (waitChan e1) \<and>
     filter (\<lambda>x. fst x = k1) (calls (snd (handleEvent rt ob ev c))) =
       filter (\<lambda>x. fst x = k1) (calls c)"
proof (intro conjI)
  show "waitMap (snd (handleEvent rt ob ev c)) k1 = Some e1"
    using assms(2) by (simp add: handleEvent_waitMap)
  have "waitChan e \<noteq> waitChan e1" if "eventKey ob = Some k" "waitMap c k = Some e" for k e
    using that assms by (auto simp: wellFormed_def)
  then show "chans (snd (handleEvent rt ob ev c)) (waitChan e1) = chans c (waitChan e1)"
    by (rule handleEvent_chan_other)
  show "filter (\<lambda>x. fst x = k1) (calls (snd (handleEvent rt ob ev c))) =
       filter (\<lambda>x. fst x = k1) (calls c)"
    using handleEvent_calls [of rt ob ev c] assms(3,4) by auto
qed

theorem handleEvent_isolation_witness:
  "wellFormed twoWaiters \<and>
   eventKey (AzDriverNode ''n1'' ''gone'' :: string object) = Some ''azdrivernode/n1'' \<and>
   waitMap (snd (handleEvent (\<lambda>_. True) (AzDriverNode ''n1'' ''gone'') delete twoWaiters))
       ''azvolume/v1'' = Some \<lparr>conditionFunc = isReady, waitChan = 0\<rparr> \<and>
   chans (snd (handleEvent (\<lambda>_. True) (AzDriverNode ''n1'' ''gone'') delete twoWaiters)) 0 =
     \<lparr>buf = [], cap = 1, closed = False\<rparr> \<and>
   filter (\<lambda>x. fst x = ''azvolume/v1'')
     (calls (snd (handleEvent (\<lambda>_. True) (AzDriverNode ''n1'' ''gone'') delete twoWaiters))) = []"
proof -
  have k: "eventKey (AzDriverNode ''n1'' ''gone'' :: string object) = Some ''azdrivernode/n1''"
    by (simp add: eventKey_examples)
  have m: "waitMap twoWaiters ''azvolume/v1'' = Some \<lparr>conditionFunc = isReady, waitChan = 0\<rparr>"
    by (simp add: twoWaiters_eq)
  have ne: "''azvolume/v1'' \<noteq> ''azdrivernode/n1''" by simp
  have c0: "chans twoWaiters 0 = \<lparr>buf = [], cap = 1, closed = False\<rparr>"
    and cl: "calls twoWaiters = []"
    by (simp_all add: twoWaiters_eq)
  show ?thesis
    using handleEvent_isolation [OF wellFormed_twoWaiters m k ne, of "\<lambda>_. True" delete]
    by (simp add: wellFormed_twoWaiters k c0 cl)
qed

text \<open>
  C9. When the object of a matched notification does not implement \<^verbatim>\<open>runtime.Object\<close>
  and the predicate's answer is terminal (an error, or the condition met), the result
  placed in the free slot has a nil object and the \<^verbatim>\<open>Internal\<close> status error: the
  assignment follows the check of the predicate's error and overwrites it.
\<close>

theorem handleEvent_not_runtime_object:
  assumes "eventKey ob = Some k" and "waitMap c k = Some e"
    and "\<not> rt ob"
    and "conditionFunc e ob (ev = delete) = (ok, er)" and "er \<noteq> None \<or> ok"
    and "\<not> closed (chans c (waitChan e))"
    and "length (buf (chans c (waitChan e))) < cap (chans c (waitChan e))"
  shows "fst (handleEvent rt ob ev c) = None \<and>
     buf (chans (snd (handleEvent rt ob ev c)) (waitChan e)) =
       buf (chans c (waitChan e)) @
         [\<lparr>obj = None, err = Some (Status Internal
              ''object does not implement runtime.Object interface.'')\<rparr>]"
proof -
  from assms(1) obtain nm where nm: "GetName ob = Some nm"
    by (auto dest: eventKey_SomeD)
  show ?thesis
    using assms(3-)
    by (auto simp: handleEvent_matched [OF assms(1) assms(2) nm] Let_def)
qed

theorem handleEvent_not_runtime_object_witness:
  "buf (chans (snd (handleEvent (\<lambda>_. False) (AzVolumeAttachment ''a1'' ''Attaching'') create
                 failingWaiter)) 0) =
     [\<lparr>obj = None, err = Some (Status Internal
          ''object does not implement runtime.Object interface.'')\<rparr>] \<and>
   buf (chans (snd (handleEvent (\<lambda>_. False) (AzVolume ''v1'' ''Ready'') update oneWaiter)) 0) =
     [\<lparr>obj = None, err = Some (Status Internal
          ''object does not implement runtime.Object interface.'')\<rparr>]"
proof -
  have a: "buf (chans (snd (handleEvent (\<lambda>_. False) (AzVolumeAttachment ''a1'' ''Attaching'') create
                 failingWaiter)) 0) =
     [\<lparr>obj = None, err = Some (Status Internal
          ''object does not implement runtime.Object interface.'')\<rparr>]"
    using handleEvent_not_runtime_object
      [of "AzVolumeAttachment ''a1'' ''Attaching''" "''azvolumeattachments/a1''" failingWaiter
          "\<lparr>conditionFunc = failing, waitChan = 0\<rparr>" "\<lambda>_. False" create False
          "Some (Plain ''lookup failed'')"]
    by (simp add: eventKey_examples failingWaiter_eq failing_def)
  have b: "buf (chans (snd (handleEvent (\<lambda>_. False) (AzVolume ''v1'' ''Ready'') update oneWaiter)) 0) =
     [\<lparr>obj = None, err = Some (Status Internal
          ''object does not implement runtime.Object interface.'')\<rparr>]"
    using handleEvent_not_runtime_object
      [of "AzVolume ''v1'' ''Ready''" "''azvolume/v1''" oneWaiter
          "\<lparr>conditionFunc = isReady, waitChan = 0\<rparr>" "\<lambda>_. False" update True None]
    by (simp add: eventKey_examples oneWaiter_eq isReady_def)
  show ?thesis using a b by blast
qed

section \<open>Properties of the performance-tuning stub\<close>

text \<open>
  C10. On platforms other than Linux the stub is inert: for all arguments
  \<^verbatim>\<open>DiskSupportsPerfOptimization\<close> answers false and \<^verbatim>\<open>OptimizeDiskPerformance\<close> returns
  a nil error.
\<close>

theorem unsupported_platform_stub_inert:
  "DiskSupportsPerfOptimization deviceHelper diskPerfProfile diskAccountType = False \<and>
   OptimizeDiskPerformance deviceHelper nodeInfo diskSkus devicePath perfProfile accountType
     diskSizeGibStr diskIopsStr diskBwMbpsStr = None"
  by (simp add: DiskSupportsPerfOptimization_def OptimizeDiskPerformance_def)

end
